theory Spec2Isabelle
  imports Complex_Main "HOL-Library.Multiset" "HOL-Library.List_Lexorder" "HOL-Library.Char_ord"
begin

section \<open>JavaScript numbers\<close>

text \<open>
  The monitor \<^verbatim>\<open>src/server/win-top.js\<close> computes with JavaScript numbers. A number is
  modelled as a real or one of the three special values of IEEE 754, so that
  \<^verbatim>\<open>Number.isFinite\<close>, \<^verbatim>\<open>x || 0\<close> and \<^verbatim>\<open>Math.max\<close> keep the branches
  they have in the source. Finite arithmetic is exact: rounding, overflow of a finite
  result to Infinity and the sign of zero are not modelled.
\<close>

datatype jsnum = Num real | PInf | NInf | NaN

fun jneg :: "jsnum \<Rightarrow> jsnum" where
  "jneg (Num a) = Num (- a)"
| "jneg PInf = NInf"
| "jneg NInf = PInf"
| "jneg NaN = NaN"

fun jadd :: "jsnum \<Rightarrow> jsnum \<Rightarrow> jsnum" where
  "jadd NaN _ = NaN"
| "jadd _ NaN = NaN"
| "jadd PInf NInf = NaN"
| "jadd NInf PInf = NaN"
| "jadd PInf _ = PInf"
| "jadd _ PInf = PInf"
| "jadd NInf _ = NInf"
| "jadd _ NInf = NInf"
| "jadd (Num a) (Num b) = Num (a + b)"

definition jsub :: "jsnum \<Rightarrow> jsnum \<Rightarrow> jsnum" where
  "jsub a b = jadd a (jneg b)"

fun jmul :: "jsnum \<Rightarrow> jsnum \<Rightarrow> jsnum" where
  "jmul NaN _ = NaN"
| "jmul _ NaN = NaN"
| "jmul (Num a) (Num b) = Num (a * b)"
| "jmul PInf (Num b) = (if b = 0 then NaN else if 0 < b then PInf else NInf)"
| "jmul NInf (Num b) = (if b = 0 then NaN else if 0 < b then NInf else PInf)"
| "jmul (Num a) PInf = (if a = 0 then NaN else if 0 < a then PInf else NInf)"
| "jmul (Num a) NInf = (if a = 0 then NaN else if 0 < a then NInf else PInf)"
| "jmul PInf PInf = PInf"
| "jmul PInf NInf = NInf"
| "jmul NInf PInf = NInf"
| "jmul NInf NInf = PInf"

text \<open>Division; a zero divisor is taken as \<open>+0\<close>.\<close>

fun jdiv :: "jsnum \<Rightarrow> jsnum \<Rightarrow> jsnum" where
  "jdiv NaN _ = NaN"
| "jdiv _ NaN = NaN"
| "jdiv (Num a) (Num b) =
     (if b = 0 then (if a = 0 then NaN else if 0 < a then PInf else NInf) else Num (a / b))"
| "jdiv (Num a) PInf = Num 0"
| "jdiv (Num a) NInf = Num 0"
| "jdiv PInf (Num b) = (if 0 \<le> b then PInf else NInf)"
| "jdiv NInf (Num b) = (if 0 \<le> b then NInf else PInf)"
| "jdiv PInf PInf = NaN"
| "jdiv PInf NInf = NaN"
| "jdiv NInf PInf = NaN"
| "jdiv NInf NInf = NaN"

text \<open>\<^verbatim>\<open>Math.max(a, b)\<close> and \<^verbatim>\<open>Math.min(a, b)\<close>: NaN when an argument is NaN.\<close>

fun jmax :: "jsnum \<Rightarrow> jsnum \<Rightarrow> jsnum" where
  "jmax NaN _ = NaN"
| "jmax _ NaN = NaN"
| "jmax PInf _ = PInf"
| "jmax _ PInf = PInf"
| "jmax NInf b = b"
| "jmax a NInf = a"
| "jmax (Num a) (Num b) = Num (max a b)"

fun jmin :: "jsnum \<Rightarrow> jsnum \<Rightarrow> jsnum" where
  "jmin NaN _ = NaN"
| "jmin _ NaN = NaN"
| "jmin NInf _ = NInf"
| "jmin _ NInf = NInf"
| "jmin PInf b = b"
| "jmin a PInf = a"
| "jmin (Num a) (Num b) = Num (min a b)"

text \<open>\<^verbatim>\<open>a > b\<close>: false when an operand is NaN.\<close>

fun jgt :: "jsnum \<Rightarrow> jsnum \<Rightarrow> bool" where
  "jgt NaN _ = False"
| "jgt _ NaN = False"
| "jgt (Num a) (Num b) = (b < a)"
| "jgt PInf PInf = False"
| "jgt PInf _ = True"
| "jgt NInf _ = False"
| "jgt (Num a) NInf = True"
| "jgt (Num a) PInf = False"

fun isFinite :: "jsnum \<Rightarrow> bool" where
  "isFinite (Num a) = True"
| "isFinite _ = False"

text \<open>Truthiness of a number: \<open>0\<close> and NaN are falsy.\<close>

fun truthy :: "jsnum \<Rightarrow> bool" where
  "truthy (Num a) = (a \<noteq> 0)"
| "truthy NaN = False"
| "truthy _ = True"

text \<open>\<^verbatim>\<open>x || 0\<close> on a number.\<close>

definition or0 :: "jsnum \<Rightarrow> jsnum" where
  "or0 x = (if truthy x then x else Num 0)"

section \<open>Strings and the pad helper\<close>

text \<open>
  A string is a list of characters, one \<open>char\<close> for one UTF-16 code unit of the source
  (\<^verbatim>\<open>s.length\<close> is \<open>length s\<close>). The values \<^verbatim>\<open>pad\<close> receives are strings,
  numbers (the pid), \<^verbatim>\<open>undefined\<close> and \<^verbatim>\<open>null\<close>. The conversion of a number to a
  string is a built-in of the platform and is a parameter of the model.
\<close>

datatype jsval = Undefined | Null | StrV string | NumV jsnum

text \<open>\<^verbatim>\<open>s.slice(0, end)\<close> for an integer \<open>end\<close>: a negative end counts from the end of the string.\<close>

definition slice0 :: "'a list \<Rightarrow> int \<Rightarrow> 'a list" where
  "slice0 s e = (if e < 0 then take (nat (int (length s) + e)) s else take (nat e) s)"

text \<open>\<^verbatim>\<open>String(text === undefined || text === null ? '' : text)\<close>\<close>

definition pad_string :: "(jsnum \<Rightarrow> string) \<Rightarrow> jsval \<Rightarrow> string" where
  "pad_string numStr txt =
     (case txt of Undefined \<Rightarrow> [] | Null \<Rightarrow> [] | StrV t \<Rightarrow> t | NumV n \<Rightarrow> numStr n)"

definition pad :: "(jsnum \<Rightarrow> string) \<Rightarrow> jsval \<Rightarrow> int \<Rightarrow> string" where
  "pad numStr txt width =
     (let s = pad_string numStr txt in
      if int (length s) > width then slice0 s width
      else if int (length s) < width then s @ replicate (nat (width - int (length s))) CHR '' ''
      else s)"

text \<open>
  \<^verbatim>\<open>s.trim()\<close>: white space and line terminators (those below 256) are removed at
  both ends.
\<close>

definition is_space :: "char \<Rightarrow> bool" where
  "is_space c = (c \<in> {CHR '' '', CHR 0x09, CHR 0x0A, CHR 0x0B, CHR 0x0C, CHR 0x0D, CHR 0xA0})"

definition trim :: "string \<Rightarrow> string" where
  "trim s = rev (dropWhile is_space (rev (dropWhile is_space s)))"

text \<open>
  \<^verbatim>\<open>s.toLowerCase()\<close>, on the code units below 256: the letters A to Z and the
  capital letters of Latin-1.
\<close>

definition lower_char :: "char \<Rightarrow> char" where
  "lower_char c =
     (let n = (of_char c :: nat)
      in if (65 \<le> n \<and> n \<le> 90) \<or> (192 \<le> n \<and> n \<le> 214) \<or> (216 \<le> n \<and> n \<le> 222)
         then char_of (n + 32) else c)"

definition toLowerCase :: "string \<Rightarrow> string" where
  "toLowerCase s = map lower_char s"

text \<open>\<^verbatim>\<open>s.startsWith(f)\<close> and \<^verbatim>\<open>s.includes(f)\<close>\<close>

fun startsWith :: "string \<Rightarrow> string \<Rightarrow> bool" where
  "startsWith s [] = True"
| "startsWith [] (y # ys) = False"
| "startsWith (x # xs) (y # ys) = (x = y \<and> startsWith xs ys)"

fun str_includes :: "string \<Rightarrow> string \<Rightarrow> bool" where
  "str_includes [] f = (f = [])"
| "str_includes (c # cs) f = (startsWith (c # cs) f \<or> str_includes cs f)"

section \<open>Process sampling\<close>

text \<open>
  One element of the array the process query returns. A field that is missing or
  \<^verbatim>\<open>null\<close> is \<open>None\<close>; the numeric fields are JSON numbers, the other two strings.
\<close>

record raw_process =
  ProcessId :: "jsnum option"
  Name :: "string option"
  CommandLine :: "string option"
  KernelModeTime :: "jsnum option"
  UserModeTime :: "jsnum option"
  WorkingSetSize :: "jsnum option"

text \<open>
  \<^verbatim>\<open>powershellJson\<close>: the command's outcome is an input; \<open>parse\<close> is
  \<^verbatim>\<open>JSON.parse\<close>, \<open>None\<close> when it throws. The result \<open>None\<close> is \<^verbatim>\<open>null\<close>.
\<close>

datatype exec_result = ExecError | Stdout string

definition powershellJson :: "(string \<Rightarrow> 'a option) \<Rightarrow> exec_result \<Rightarrow> 'a option" where
  "powershellJson parse r =
     (case r of
        ExecError \<Rightarrow> None
      | Stdout s \<Rightarrow> (let out = trim s in if out = [] \<or> out = ''null'' then None else parse out))"

text \<open>
  The parsed output of the process query: an array, one object, or a falsy value
  (\<^verbatim>\<open>0\<close>, \<^verbatim>\<open>false\<close>, the empty string).
\<close>

datatype 'a ps_data = Falsy | Arr "'a list" | Obj 'a

definition sampleProcessesRaw :: "raw_process ps_data option \<Rightarrow> raw_process list" where
  "sampleProcessesRaw data =
     (case data of
        None \<Rightarrow> []
      | Some Falsy \<Rightarrow> []
      | Some (Arr ps) \<Rightarrow> ps
      | Some (Obj p) \<Rightarrow> [p])"

text \<open>\<^verbatim>\<open>Number(x || 0)\<close> on a numeric field, and \<^verbatim>\<open>prevCpuMap.get(pid) || 0\<close>.\<close>

definition num_or0 :: "jsnum option \<Rightarrow> jsnum" where
  "num_or0 x = (case x of None \<Rightarrow> Num 0 | Some v \<Rightarrow> or0 v)"

text \<open>\<^verbatim>\<open>s || ''\<close> on a string field.\<close>

definition str_or_empty :: "string option \<Rightarrow> string" where
  "str_or_empty x = (case x of None \<Rightarrow> [] | Some s \<Rightarrow> s)"

record proc_row =
  pid :: jsnum
  name :: string
  cmd :: string
  cpuSec :: jsnum
  cpuPct :: jsnum
  memBytes :: jsnum
  estW :: jsnum

text \<open>
  The globals that are fixed once the monitor has started: the core count (a length, or
  a parsed positive integer), the CPU model and the two knobs of the power model
  (\<^verbatim>\<open>parseFloat(...) || 15\<close>: any number but \<open>0\<close> and NaN).
\<close>

record config =
  logicalCores :: nat
  cpuModel :: string
  CPU_TDP_W :: jsnum
  MEM_W_PER_GB :: jsnum

text \<open>The sampling state: \<^verbatim>\<open>prevCpuMap\<close> and \<^verbatim>\<open>prevSampleTime\<close> (milliseconds).\<close>

record sampler_state =
  prevCpuMap :: "jsnum \<rightharpoonup> jsnum"
  prevSampleTime :: int

definition raw_pid :: "raw_process \<Rightarrow> jsnum" where
  "raw_pid p = num_or0 (ProcessId p)"

text \<open>\<^verbatim>\<open>totalTicks / 1e7\<close>, the ticks being 100 ns units.\<close>

definition raw_cpuSec :: "raw_process \<Rightarrow> jsnum" where
  "raw_cpuSec p =
     (let kTicks = num_or0 (KernelModeTime p);
          uTicks = num_or0 (UserModeTime p);
          totalTicks = jadd kTicks uTicks
      in jdiv totalTicks (Num 10000000))"

text \<open>\<^verbatim>\<open>Math.max((now - prevSampleTime) / 1000, 0.001)\<close>\<close>

definition dtSec :: "int \<Rightarrow> int \<Rightarrow> real" where
  "dtSec now prev = max (real_of_int (now - prev) / 1000) 0.001"

text \<open>The body of the loop of \<^verbatim>\<open>sampleProcesses\<close>: the row pushed for one process.\<close>

definition process_row :: "config \<Rightarrow> (jsnum \<rightharpoonup> jsnum) \<Rightarrow> real \<Rightarrow> raw_process \<Rightarrow> proc_row" where
  "process_row cfg prevMap dt p =
     (let pid' = raw_pid p;
          cpuSec' = raw_cpuSec p;
          prev = num_or0 (prevMap pid');
          delta = jmax (Num 0) (jsub cpuSec' prev);
          cpuPct' = jmul (jdiv (jdiv delta (Num dt)) (jmax (Num 1) (Num (real (logicalCores cfg)))))
                      (Num 100);
          memBytes' = num_or0 (WorkingSetSize p);
          memGB = jdiv memBytes' (Num (1024 * 1024 * 1024));
          estW' = jadd (jmul (jdiv (jmax (Num 0) cpuPct') (Num 100)) (CPU_TDP_W cfg))
                    (jmul memGB (MEM_W_PER_GB cfg))
      in \<lparr>pid = pid',
          name = str_or_empty (Name p),
          cmd = trim (str_or_empty (CommandLine p)),
          cpuSec = cpuSec',
          cpuPct = (if isFinite cpuPct' then cpuPct' else Num 0),
          memBytes = memBytes',
          estW = (if isFinite estW' then estW' else Num 0)\<rparr>)"

text \<open>
  \<^verbatim>\<open>sampleProcesses\<close>, with the clock reading \<open>now\<close> and the raw sample as inputs; it
  returns the rows and the state it leaves. The map is cleared and refilled from the rows.
\<close>

definition sampleProcesses ::
  "config \<Rightarrow> sampler_state \<Rightarrow> int \<Rightarrow> raw_process list \<Rightarrow> proc_row list \<times> sampler_state" where
  "sampleProcesses cfg st now raw =
     (let dt = dtSec now (prevSampleTime st);
          rows = map (process_row cfg (prevCpuMap st) dt) raw
      in (rows,
          \<lparr>prevCpuMap = fold (\<lambda>r m. m(pid r \<mapsto> cpuSec r)) rows Map.empty,
           prevSampleTime = now\<rparr>))"

text \<open>The seeding of the map in \<^verbatim>\<open>main\<close>, from the initial raw sample.\<close>

definition seed :: "int \<Rightarrow> raw_process list \<Rightarrow> sampler_state" where
  "seed now initRaw =
     \<lparr>prevCpuMap = fold (\<lambda>p m. m(raw_pid p \<mapsto> raw_cpuSec p)) initRaw Map.empty,
      prevSampleTime = now\<rparr>"

section \<open>System sampling\<close>

text \<open>
  The outcomes of the queries of \<^verbatim>\<open>sampleSystem\<close>: \<open>None\<close> is a query that threw (or,
  for the memory query, returned \<^verbatim>\<open>null\<close> or no object); a number is what
  \<^verbatim>\<open>parseFloat\<close> or \<^verbatim>\<open>parseInt\<close> returned.
\<close>

record system_queries =
  q_cpu :: "jsnum option"
  os_totalmem :: nat
  os_freemem :: nat
  q_mem :: "(jsnum option \<times> jsnum option) option"
  q_procCount :: "jsnum option"
  q_uptime :: "string option"

record system_snapshot =
  cpu :: jsnum
  totalMem :: jsnum
  usedMem :: jsnum
  procCount :: jsnum
  uptime :: string
  estPowerW :: jsnum
  cpuW :: jsnum
  memW :: jsnum

definition sampleSystem :: "config \<Rightarrow> system_queries \<Rightarrow> system_snapshot" where
  "sampleSystem cfg q =
     (let cpu' = num_or0 (q_cpu q);
          totalMem0 = Num (real (os_totalmem q));
          usedMem0 = jsub totalMem0 (Num (real (os_freemem q)));
          (totalMem', usedMem') =
            (case q_mem q of
               Some (Some totalKB, Some freeKB) \<Rightarrow>
                 if truthy totalKB \<and> truthy freeKB
                 then (jmul totalKB (Num 1024),
                       jmax (Num 0) (jsub (jmul totalKB (Num 1024)) (jmul freeKB (Num 1024))))
                 else (totalMem0, usedMem0)
             | _ \<Rightarrow> (totalMem0, usedMem0));
          procCount' = num_or0 (q_procCount q);
          uptime' = (case q_uptime q of None \<Rightarrow> ''N/A'' | Some s \<Rightarrow> if trim s = [] then ''N/A'' else trim s);
          cpuPct' = jmax (Num 0) (jmin (Num 100) (or0 cpu'));
          usedMemGB = jdiv usedMem' (Num (1024 * 1024 * 1024));
          cpuW' = jmul (jdiv cpuPct' (Num 100)) (CPU_TDP_W cfg);
          memW' = jmul usedMemGB (MEM_W_PER_GB cfg);
          estPowerW' = jadd cpuW' memW'
      in \<lparr>cpu = cpu', totalMem = totalMem', usedMem = usedMem', procCount = procCount',
          uptime = uptime', estPowerW = estPowerW', cpuW = cpuW', memW = memW'\<rparr>)"

section \<open>Sorting and filtering\<close>

datatype sort_key = SortCpu | SortMem | SortPid | SortName | SortPower

text \<open>The view state: \<^verbatim>\<open>sortBy\<close>, \<^verbatim>\<open>sortDesc\<close>, \<^verbatim>\<open>filterStr\<close>, \<^verbatim>\<open>topN\<close> and \<^verbatim>\<open>intervalMs\<close>.\<close>

record view_state =
  sortBy :: sort_key
  sortDesc :: bool
  filterStr :: string
  topN :: int
  intervalMs :: int

text \<open>The predicate of \<^verbatim>\<open>rows.filter\<close>; \<open>f\<close> is the lower-cased filter string.\<close>

definition row_matches :: "string \<Rightarrow> proc_row \<Rightarrow> bool" where
  "row_matches f r =
     ((name r \<noteq> [] \<and> str_includes (toLowerCase (name r)) f) \<or>
      (cmd r \<noteq> [] \<and> str_includes (toLowerCase (cmd r)) f))"

definition filter_rows :: "string \<Rightarrow> proc_row list \<Rightarrow> proc_row list" where
  "filter_rows fs rows = (if fs \<noteq> [] then filter (row_matches (toLowerCase fs)) rows else rows)"

text \<open>
  \<^verbatim>\<open>cmpMap\<close>. \<^verbatim>\<open>String.prototype.localeCompare\<close> is a built-in of the platform
  and a parameter \<open>lc\<close> of the model: negative, zero or positive. The sort key is one of
  the five keys of the map (the input handler sets no other), so the fallback
  \<^verbatim>\<open>|| cmpMap.cpu\<close> is never taken.
\<close>

definition cmpMap ::
  "(string \<Rightarrow> string \<Rightarrow> int) \<Rightarrow> sort_key \<Rightarrow> proc_row \<Rightarrow> proc_row \<Rightarrow> jsnum" where
  "cmpMap lc k a b =
     (case k of
        SortCpu \<Rightarrow> jsub (cpuPct a) (cpuPct b)
      | SortMem \<Rightarrow> jsub (memBytes a) (memBytes b)
      | SortPid \<Rightarrow> jsub (pid a) (pid b)
      | SortName \<Rightarrow> Num (real_of_int (lc (name a) (name b)))
      | SortPower \<Rightarrow> jsub (estW a) (estW b))"

text \<open>
  \<^verbatim>\<open>Array.prototype.sort(comparefn)\<close> is stable, and an element \<open>x\<close> sorts after \<open>y\<close>
  when \<open>comparefn(x, y) > 0\<close> (a NaN result counts as \<open>0\<close>). It is modelled by the stable
  insertion sort: for a consistent comparator every stable sort returns the same array.
\<close>

definition sorts_after :: "('a \<Rightarrow> 'a \<Rightarrow> jsnum) \<Rightarrow> 'a \<Rightarrow> 'a \<Rightarrow> bool" where
  "sorts_after c x y = jgt (c x y) (Num 0)"

fun js_insert :: "('a \<Rightarrow> 'a \<Rightarrow> jsnum) \<Rightarrow> 'a \<Rightarrow> 'a list \<Rightarrow> 'a list" where
  "js_insert c x [] = [x]"
| "js_insert c x (y # ys) = (if sorts_after c x y then y # js_insert c x ys else x # y # ys)"

fun js_sort :: "('a \<Rightarrow> 'a \<Rightarrow> jsnum) \<Rightarrow> 'a list \<Rightarrow> 'a list" where
  "js_sort c [] = []"
| "js_sort c (x # xs) = js_insert c x (js_sort c xs)"

text \<open>The comparator handed to \<^verbatim>\<open>filtered.sort\<close>.\<close>

definition directed_cmp ::
  "(string \<Rightarrow> string \<Rightarrow> int) \<Rightarrow> view_state \<Rightarrow> proc_row \<Rightarrow> proc_row \<Rightarrow> jsnum" where
  "directed_cmp lc vs a b =
     jmul (if sortDesc vs then Num (- 1) else Num 1) (cmpMap lc (sortBy vs) a b)"

definition sortAndFilterProcesses ::
  "(string \<Rightarrow> string \<Rightarrow> int) \<Rightarrow> view_state \<Rightarrow> proc_row list \<Rightarrow> proc_row list" where
  "sortAndFilterProcesses lc vs rows =
     (let filtered = filter_rows (filterStr vs) rows
      in slice0 (js_sort (directed_cmp lc vs) filtered) (topN vs))"

section \<open>Input handling\<close>

text \<open>
  The start value of \<^verbatim>\<open>intervalMs\<close>, \<^verbatim>\<open>parseInt(arg, 10) || 1000\<close>: the argument is
  what \<^verbatim>\<open>parseInt\<close> returned, \<open>None\<close> for NaN.
\<close>

definition start_intervalMs :: "int option \<Rightarrow> int" where
  "start_intervalMs parsed = (case parsed of None \<Rightarrow> 1000 | Some n \<Rightarrow> if n = 0 then 1000 else n)"

text \<open>
  The effect of one \<^verbatim>\<open>data\<close> event on the view state (the single-key commands; the
  prompts and \<^verbatim>\<open>process.exit\<close> are not part of the view state).
\<close>

definition on_key :: "string \<Rightarrow> view_state \<Rightarrow> view_state" where
  "on_key k vs =
     (if k = ''c'' then vs\<lparr>sortBy := SortCpu, sortDesc := True\<rparr>
      else if k = ''m'' then vs\<lparr>sortBy := SortMem, sortDesc := True\<rparr>
      else if k = ''p'' then vs\<lparr>sortBy := SortPid, sortDesc := False\<rparr>
      else if k = ''n'' then vs\<lparr>sortBy := SortName, sortDesc := False\<rparr>
      else if k = ''r'' then vs\<lparr>sortDesc := \<not> sortDesc vs\<rparr>
      else if k = ''w'' then vs\<lparr>sortBy := SortPower, sortDesc := True\<rparr>
      else if k = ''+'' then vs\<lparr>intervalMs := max 200 \<lfloor>real_of_int (intervalMs vs) * 0.8\<rfloor>\<rparr>
      else if k = ''-'' then vs\<lparr>intervalMs := min 60000 \<lceil>real_of_int (intervalMs vs) * 1.25\<rceil>\<rparr>
      else vs)"

section \<open>Rendering\<close>

text \<open>
  The number formatting built-ins of the platform are parameters of the model:
  \<open>numStr n\<close> is the string a template literal or \<^verbatim>\<open>String\<close> prints for the number
  \<open>n\<close>, and \<open>toFixed n d\<close> is \<^verbatim>\<open>n.toFixed(d)\<close>.
\<close>

record formatters =
  numStr :: "jsnum \<Rightarrow> string"
  toFixed :: "jsnum \<Rightarrow> nat \<Rightarrow> string"

text \<open>
  The escape sequences of \<^verbatim>\<open>ansi\<close>. The two characters of the source outside ASCII,
  the dash of the title and the block of the bars, are one code unit each and stand here
  as one \<open>char\<close> each (two control codes that no other string of the model holds).
\<close>

definition esc :: char where "esc = CHR 0x1B"
definition ansi_bold :: string where "ansi_bold = esc # ''[1m''"
definition ansi_reset :: string where "ansi_reset = esc # ''[0m''"
definition ansi_red :: string where "ansi_red = esc # ''[31m''"
definition ansi_green :: string where "ansi_green = esc # ''[32m''"
definition ansi_yellow :: string where "ansi_yellow = esc # ''[33m''"
definition ansi_cyan :: string where "ansi_cyan = esc # ''[36m''"
definition ansi_dim :: string where "ansi_dim = esc # ''[2m''"
definition ansi_underline :: string where "ansi_underline = esc # ''[4m''"
definition em_dash :: char where "em_dash = CHR 0x97"
definition full_block :: char where "full_block = CHR 0x88"
definition nl :: string where "nl = [CHR 0x0A]"

text \<open>\<^verbatim>\<open>units[i]\<close>, printed in a template: \<^verbatim>\<open>undefined\<close> outside the array.\<close>

definition unit_name :: "int \<Rightarrow> string" where
  "unit_name i =
     (if i = 0 then ''B'' else if i = 1 then ''KB'' else if i = 2 then ''MB''
      else if i = 3 then ''GB'' else if i = 4 then ''TB'' else ''undefined'')"

definition humanBytes :: "formatters \<Rightarrow> jsnum \<Rightarrow> string" where
  "humanBytes fm bytes =
     (case bytes of
        Num b \<Rightarrow>
          if b \<le> 0 then ''0 B''
          else (let i = \<lfloor>ln b / ln 1024\<rfloor>;
                    v = b / (1024 powi i)
                in toFixed fm (Num v) 1 @ '' '' @ unit_name i)
      | _ \<Rightarrow> ''0 B'')"

text \<open>
  \<^verbatim>\<open>progressBar\<close>; \<^verbatim>\<open>Math.round(x)\<close> is \<open>\<lfloor>x + 1/2\<rfloor>\<close>. The percentage is a number
  after the clamp, so the last case is never taken. For \<open>0 \<le> width\<close> neither count is
  negative (\<^verbatim>\<open>repeat\<close> throws on a negative count).
\<close>

definition progressBar :: "jsnum \<Rightarrow> int \<Rightarrow> string" where
  "progressBar percentage width =
     (case jmax (Num 0) (jmin (Num 100) (or0 percentage)) of
        Num pct \<Rightarrow>
          (let filled = \<lfloor>pct / 100 * real_of_int width + 1 / 2\<rfloor>;
               empty = width - filled
           in replicate (nat filled) full_block @ replicate (nat empty) CHR '' '')
      | _ \<Rightarrow> [])"

text \<open>The battery sample: \<^verbatim>\<open>charge\<close> is a finite number or \<^verbatim>\<open>null\<close>.\<close>

record battery_info =
  charge :: "jsnum option"
  status :: string

text \<open>What \<^verbatim>\<open>render\<close> does to the terminal, in order.\<close>

datatype term_op = Clear | Write string

definition sort_key_upper :: "sort_key \<Rightarrow> string" where
  "sort_key_upper k =
     (case k of SortCpu \<Rightarrow> ''CPU'' | SortMem \<Rightarrow> ''MEM'' | SortPid \<Rightarrow> ''PID''
      | SortName \<Rightarrow> ''NAME'' | SortPower \<Rightarrow> ''POWER'')"

text \<open>\<^verbatim>\<open>process.stdout.columns || 120\<close>; \<open>None\<close> is \<^verbatim>\<open>undefined\<close> (no terminal).\<close>

definition term_width :: "nat option \<Rightarrow> int" where
  "term_width columns = (case columns of None \<Rightarrow> 120 | Some n \<Rightarrow> if n = 0 then 120 else int n)"

text \<open>\<^verbatim>\<open>cols.cmd\<close>\<close>

definition cols_cmd :: "int \<Rightarrow> int" where
  "cols_cmd width = max 10 (width - (6 + 7 + 9 + 10 + 18 + 5))"

definition title_line :: "string \<Rightarrow> string" where
  "title_line ts =
     ansi_bold @ ansi_cyan @ ''win-top+ '' @ [em_dash] @ '' Windows performance monitor'' @ ansi_reset
     @ ''   '' @ ansi_dim @ ''['' @ ts @ '']'' @ ansi_reset @ nl"

definition model_line :: "formatters \<Rightarrow> config \<Rightarrow> int \<Rightarrow> string" where
  "model_line fm cfg width =
     (let trimmedModel =
            (if int (length (cpuModel cfg)) > width - 20
             then slice0 (cpuModel cfg) (width - 23) @ ''...'' else cpuModel cfg)
      in ansi_dim @ ''CPU:'' @ ansi_reset @ '' '' @ trimmedModel @ ''   ''
         @ ansi_dim @ ''Logical cores:'' @ ansi_reset @ '' ''
         @ numStr fm (Num (real (logicalCores cfg))) @ ''   ''
         @ ansi_dim @ ''TDP model:'' @ ansi_reset @ '' '' @ numStr fm (CPU_TDP_W cfg) @ ''W CPU, ''
         @ numStr fm (MEM_W_PER_GB cfg) @ ''W/GB RAM'' @ nl)"

definition cpu_line :: "formatters \<Rightarrow> system_snapshot \<Rightarrow> int \<Rightarrow> string" where
  "cpu_line fm system barWidth =
     (let cpuPct' = jmax (Num 0) (jmin (Num 100) (or0 (cpu system)));
          cpuBar = progressBar cpuPct' barWidth;
          cpuColor = (if jgt cpuPct' (Num 70) then ansi_red
                      else if jgt cpuPct' (Num 40) then ansi_yellow else ansi_green)
      in '' CPU  '' @ cpuColor @ pad (numStr fm) (StrV (toFixed fm cpuPct' 1 @ ''%'')) 7 @ ansi_reset
         @ '' ['' @ cpuBar @ '']'' @ ''   '' @ ansi_dim @ ''Processes:'' @ ansi_reset @ '' ''
         @ numStr fm (procCount system) @ ''   '' @ ansi_dim @ ''Uptime:'' @ ansi_reset @ '' ''
         @ uptime system @ nl)"

definition mem_line :: "formatters \<Rightarrow> system_snapshot \<Rightarrow> int \<Rightarrow> string" where
  "mem_line fm system barWidth =
     (let memPct = (if truthy (totalMem system)
                    then jmul (jdiv (usedMem system) (totalMem system)) (Num 100) else Num 0);
          memBar = progressBar memPct barWidth;
          memColor = (if jgt memPct (Num 80) then ansi_red
                      else if jgt memPct (Num 60) then ansi_yellow else ansi_green)
      in '' MEM  '' @ memColor @ pad (numStr fm) (StrV (toFixed fm memPct 1 @ ''%'')) 7 @ ansi_reset
         @ '' ['' @ memBar @ '']'' @ ''   '' @ ansi_dim @ ''Used:'' @ ansi_reset @ '' ''
         @ humanBytes fm (usedMem system) @ ''  '' @ ansi_dim @ ''Total:'' @ ansi_reset @ '' ''
         @ humanBytes fm (totalMem system) @ nl)"

definition pwr_line ::
  "formatters \<Rightarrow> system_snapshot \<Rightarrow> battery_info option \<Rightarrow> string \<Rightarrow> string" where
  "pwr_line fm system battery powerScheme =
     (let totalW = jmax (Num 0) (or0 (estPowerW system));
          cpuW' = jmax (Num 0) (or0 (cpuW system));
          memW' = jmax (Num 0) (or0 (memW system));
          pwrStr = ''~'' @ toFixed fm totalW 1 @ '' W'';
          cpuWStr = ''CPU: '' @ toFixed fm cpuW' 1 @ ''W'';
          memWStr = ''RAM: '' @ toFixed fm memW' 1 @ ''W'';
          battStr = (case battery of
                       None \<Rightarrow> ''N/A''
                     | Some b \<Rightarrow>
                         (case charge b of Some c \<Rightarrow> numStr fm c @ ''%'' | None \<Rightarrow> ''?%'')
                         @ '' ('' @ status b @ '')'');
          schemeStr = (if powerScheme = [] then ''Unknown'' else powerScheme)
      in '' PWR  '' @ ansi_yellow @ pad (numStr fm) (StrV pwrStr) 9 @ ansi_reset
         @ ''   '' @ ansi_dim @ cpuWStr @ '', '' @ memWStr @ ansi_reset
         @ ''   '' @ ansi_dim @ ''Scheme:'' @ ansi_reset @ '' '' @ schemeStr @ ''   ''
         @ ansi_dim @ ''Battery:'' @ ansi_reset @ '' '' @ battStr @ nl)"

definition processes_line :: "formatters \<Rightarrow> view_state \<Rightarrow> string" where
  "processes_line fm vs =
     ansi_bold @ ''PROCESSES'' @ ansi_reset @ ''  ''
     @ ansi_dim @ ''(sorted by '' @ sort_key_upper (sortBy vs) @ '' ''
     @ (if sortDesc vs then ''desc'' else ''asc'') @ '', top ''
     @ numStr fm (Num (real_of_int (topN vs))) @ '', filter: ''
     @ (if filterStr vs = [] then ''none'' else filterStr vs) @ '')'' @ ansi_reset @ nl @ nl @ nl"

text \<open>The header of the table and the line of one process, without the colour codes.\<close>

definition table_header :: "formatters \<Rightarrow> int \<Rightarrow> string" where
  "table_header fm width =
     pad (numStr fm) (StrV ''PID'') 6 @ '' '' @
     pad (numStr fm) (StrV ''CPU%'') 7 @ '' '' @
     pad (numStr fm) (StrV ''PWR(W)'') 9 @ '' '' @
     pad (numStr fm) (StrV ''MEM'') 10 @ '' '' @
     pad (numStr fm) (StrV ''NAME'') 18 @ '' '' @
     pad (numStr fm) (StrV ''COMMAND'') (cols_cmd width)"

definition table_line :: "formatters \<Rightarrow> int \<Rightarrow> proc_row \<Rightarrow> string" where
  "table_line fm width p =
     (let cpuStr = toFixed fm (cpuPct p) 1;
          memStr = humanBytes fm (memBytes p);
          pwrStrProc = toFixed fm (estW p) 2
      in pad (numStr fm) (NumV (pid p)) 6 @ '' '' @
         pad (numStr fm) (StrV cpuStr) 7 @ '' '' @
         pad (numStr fm) (StrV pwrStrProc) 9 @ '' '' @
         pad (numStr fm) (StrV memStr) 10 @ '' '' @
         pad (numStr fm) (StrV (name p)) 18 @ '' '' @
         pad (numStr fm) (StrV (cmd p)) (cols_cmd width))"

definition process_write :: "formatters \<Rightarrow> config \<Rightarrow> int \<Rightarrow> proc_row \<Rightarrow> term_op" where
  "process_write fm cfg width p =
     (let (color, endColor) =
            (if jgt (cpuPct p) (Num 50) \<or> jgt (estW p) (jmul (CPU_TDP_W cfg) (Num 0.5))
             then (ansi_red, ansi_reset)
             else if jgt (cpuPct p) (Num 20) \<or> jgt (estW p) (jmul (CPU_TDP_W cfg) (Num 0.2))
             then (ansi_yellow, ansi_reset)
             else ([], []))
      in Write (color @ table_line fm width p @ endColor @ nl))"

definition keys_line :: string where
  "keys_line =
     ansi_dim
     @ ''Keys: c=CPU  m=MEM  p=PID  n=NAME  r=reverse  /=filter  +=faster  -=slower  k=kill  q=quit''
     @ ansi_reset @ nl"

text \<open>
  \<^verbatim>\<open>render(system, processes, battery, powerScheme)\<close>. What it reads besides its
  arguments is made explicit: the formatters, the string \<open>ts\<close> that \<^verbatim>\<open>timestamp()\<close>
  returns (the local time of the call), the columns of the terminal, and the globals
  \<open>cfg\<close> and \<open>vs\<close>.
\<close>

definition render ::
  "formatters \<Rightarrow> string \<Rightarrow> nat option \<Rightarrow> config \<Rightarrow> view_state \<Rightarrow>
   system_snapshot \<Rightarrow> proc_row list \<Rightarrow> battery_info option \<Rightarrow> string \<Rightarrow> term_op list" where
  "render fm ts columns cfg vs system processes battery powerScheme =
     (let width = term_width columns;
          barWidth = min 40 (max 10 \<lfloor>real_of_int width * 0.4\<rfloor>)
      in [Clear,
          Write (title_line ts),
          Write (model_line fm cfg width),
          Write nl,
          Write (ansi_bold @ ''SYSTEM'' @ ansi_reset @ nl),
          Write (cpu_line fm system barWidth),
          Write (mem_line fm system barWidth),
          Write (pwr_line fm system battery powerScheme),
          Write nl,
          Write (processes_line fm vs),
          Write (ansi_underline @ table_header fm width @ ansi_reset @ nl)]
         @ map (process_write fm cfg width) processes
         @ [Write nl, Write keys_line])"

section \<open>The main loop\<close>

text \<open>
  One call of \<^verbatim>\<open>tick\<close>. Its inputs are the four settled promises of
  \<^verbatim>\<open>Promise.all\<close> (\<open>Inl e\<close>: rejected, \<open>e\<close> the message that is logged), the clock and
  the columns \<^verbatim>\<open>render\<close> reads, and a fault of the terminal: \<open>Some (k, e)\<close> when the
  operation of index \<open>k\<close> of \<^verbatim>\<open>render\<close> throws \<open>e\<close>. When several promises
  are rejected, the message of the first in the array stands for the one that is logged.
\<close>

record tick_env =
  system_p :: "string + system_snapshot"
  procs_p :: "string + proc_row list"
  battery_p :: "string + battery_info option"
  scheme_p :: "string + string"
  clock :: string
  columns_now :: "nat option"
  stdout_fault :: "(nat \<times> string) option"

text \<open>
  What one tick leaves: the line \<^verbatim>\<open>console.error\<close> printed, if any; the terminal
  operations that took place; and the delay given to \<^verbatim>\<open>setTimeout(tick, intervalMs)\<close>,
  \<open>None\<close> if no next tick was scheduled.
\<close>

record tick_result =
  console_error :: "string option"
  written :: "term_op list"
  timer :: "int option"

text \<open>The \<^verbatim>\<open>try\<close> block: the operations done, and the exception that ended it, if any.\<close>

definition tick_try ::
  "formatters \<Rightarrow> (string \<Rightarrow> string \<Rightarrow> int) \<Rightarrow> config \<Rightarrow> view_state \<Rightarrow> tick_env \<Rightarrow>
   term_op list \<times> string option" where
  "tick_try fm lc cfg vs env =
     (case system_p env of Inl e \<Rightarrow> ([], Some e) | Inr system \<Rightarrow>
     (case procs_p env of Inl e \<Rightarrow> ([], Some e) | Inr procsRaw \<Rightarrow>
     (case battery_p env of Inl e \<Rightarrow> ([], Some e) | Inr battery \<Rightarrow>
     (case scheme_p env of Inl e \<Rightarrow> ([], Some e) | Inr scheme \<Rightarrow>
        (let procs = sortAndFilterProcesses lc vs procsRaw;
             ops = render fm (clock env) (columns_now env) cfg vs system procs battery scheme
         in (case stdout_fault env of
               None \<Rightarrow> (ops, None)
             | Some (k, e) \<Rightarrow> if k < length ops then (take k ops, Some e) else (ops, None)))))))"

definition tick ::
  "formatters \<Rightarrow> (string \<Rightarrow> string \<Rightarrow> int) \<Rightarrow> config \<Rightarrow> view_state \<Rightarrow> tick_env \<Rightarrow> tick_result" where
  "tick fm lc cfg vs env =
     (let (ops, thrown) = tick_try fm lc cfg vs env
      in \<lparr>console_error = (case thrown of None \<Rightarrow> None | Some e \<Rightarrow> Some (''Error: '' @ e)),
          written = ops,
          timer = Some (intervalMs vs)\<rparr>)"

text \<open>
  The loop: a tick runs, and the next one runs only if a timer was set. Each element of
  the list is the view state and the environment one tick finds.
\<close>

fun run_ticks ::
  "formatters \<Rightarrow> (string \<Rightarrow> string \<Rightarrow> int) \<Rightarrow> config \<Rightarrow> (view_state \<times> tick_env) list \<Rightarrow>
   tick_result list" where
  "run_ticks fm lc cfg [] = []"
| "run_ticks fm lc cfg ((vs, env) # rest) =
     (let r = tick fm lc cfg vs env
      in case timer r of None \<Rightarrow> [r] | Some d \<Rightarrow> r # run_ticks fm lc cfg rest)"

section \<open>The properties as the specification words them\<close>

text \<open>
  The filter of the specification: \<open>f\<close> is a substring of \<open>s\<close> when case is ignored.
\<close>

definition ci_substring :: "string \<Rightarrow> string \<Rightarrow> bool" where
  "ci_substring f s = (\<exists>pre suf. toLowerCase s = pre @ toLowerCase f @ suf)"

text \<open>
  The ranking of the specification. A row is comparable when none of its four numeric
  fields is NaN. A comparator of names is consistent when it is antisymmetric in sign and
  transitive. \<open>key_le\<close> is the order of the selected key (\<open>a\<close> not above \<open>b\<close>),
  \<open>rank_le\<close> that order in the direction of the view state (\<open>a\<close> may stand before
  \<open>b\<close>), and two rows are tied when each may stand before the other.
\<close>

definition comparable_row :: "proc_row \<Rightarrow> bool" where
  "comparable_row r =
     (pid r \<noteq> NaN \<and> cpuPct r \<noteq> NaN \<and> memBytes r \<noteq> NaN \<and> estW r \<noteq> NaN)"

definition consistent_comparator :: "(string \<Rightarrow> string \<Rightarrow> int) \<Rightarrow> bool" where
  "consistent_comparator lc =
     ((\<forall>a b. 0 < lc a b \<longleftrightarrow> lc b a < 0) \<and>
      (\<forall>a b c. lc a b \<le> 0 \<and> lc b c \<le> 0 \<longrightarrow> lc a c \<le> 0))"

definition key_le ::
  "(string \<Rightarrow> string \<Rightarrow> int) \<Rightarrow> sort_key \<Rightarrow> proc_row \<Rightarrow> proc_row \<Rightarrow> bool" where
  "key_le lc k a b =
     (case k of
        SortCpu \<Rightarrow> \<not> jgt (cpuPct a) (cpuPct b)
      | SortMem \<Rightarrow> \<not> jgt (memBytes a) (memBytes b)
      | SortPid \<Rightarrow> \<not> jgt (pid a) (pid b)
      | SortName \<Rightarrow> lc (name a) (name b) \<le> 0
      | SortPower \<Rightarrow> \<not> jgt (estW a) (estW b))"

definition rank_le ::
  "(string \<Rightarrow> string \<Rightarrow> int) \<Rightarrow> view_state \<Rightarrow> proc_row \<Rightarrow> proc_row \<Rightarrow> bool" where
  "rank_le lc vs a b =
     (if sortDesc vs then key_le lc (sortBy vs) b a else key_le lc (sortBy vs) a b)"

definition rank_tied ::
  "(string \<Rightarrow> string \<Rightarrow> int) \<Rightarrow> view_state \<Rightarrow> proc_row \<Rightarrow> proc_row \<Rightarrow> bool" where
  "rank_tied lc vs a b = (rank_le lc vs a b \<and> rank_le lc vs b a)"

text \<open>The array \<^verbatim>\<open>filtered\<close> after \<^verbatim>\<open>filtered.sort\<close>, before the slice.\<close>

definition sorted_rows ::
  "(string \<Rightarrow> string \<Rightarrow> int) \<Rightarrow> view_state \<Rightarrow> proc_row list \<Rightarrow> proc_row list" where
  "sorted_rows lc vs rows = js_sort (directed_cmp lc vs) (filter_rows (filterStr vs) rows)"

text \<open>
  A comparator \<open>c\<close> agrees on the set \<open>S\<close> with a relation \<open>le\<close> that is total and
  transitive there.
\<close>

definition consistent_on ::
  "'a set \<Rightarrow> ('a \<Rightarrow> 'a \<Rightarrow> jsnum) \<Rightarrow> ('a \<Rightarrow> 'a \<Rightarrow> bool) \<Rightarrow> bool" where
  "consistent_on S c le =
     ((\<forall>a\<in>S. \<forall>b\<in>S. sorts_after c a b \<longleftrightarrow> \<not> le a b) \<and>
      (\<forall>a\<in>S. \<forall>b\<in>S. le a b \<or> le b a) \<and>
      (\<forall>a\<in>S. \<forall>b\<in>S. \<forall>d\<in>S. le a b \<longrightarrow> le b d \<longrightarrow> le a d))"


text \<open>A number that is finite and not negative; and one that is so, or Infinity, or NaN.\<close>

definition nonneg_num :: "jsnum \<Rightarrow> bool" where
  "nonneg_num x = (\<exists>a. x = Num a \<and> 0 \<le> a)"

definition nonneg_or_special :: "jsnum \<Rightarrow> bool" where
  "nonneg_or_special x = (nonneg_num x \<or> x = PInf \<or> x = NaN)"

text \<open>
  Inputs for the examples: a process with its pid, kernel ticks, user ticks and working
  set; the globals with the default power model on a given number of cores; and the
  queries of the system sampler with a CPU reading and the memory of the host.
\<close>

definition demo_process :: "real \<Rightarrow> real \<Rightarrow> real \<Rightarrow> real \<Rightarrow> raw_process" where
  "demo_process p k u w =
     \<lparr>ProcessId = Some (Num p), Name = Some ''app.exe'', CommandLine = None,
      KernelModeTime = Some (Num k), UserModeTime = Some (Num u), WorkingSetSize = Some (Num w)\<rparr>"

definition demo_config :: "nat \<Rightarrow> config" where
  "demo_config n =
     \<lparr>logicalCores = n, cpuModel = ''Demo CPU'', CPU_TDP_W = Num 15, MEM_W_PER_GB = Num 1.5\<rparr>"

definition demo_queries :: "real \<Rightarrow> nat \<Rightarrow> nat \<Rightarrow> system_queries" where
  "demo_queries c t f =
     \<lparr>q_cpu = Some (Num c), os_totalmem = t, os_freemem = f, q_mem = None,
      q_procCount = Some (Num 100), q_uptime = Some ''0d 1h 2m''\<rparr>"

text \<open>
  For the examples: a comparator of names by code units, a row with its pid, name and
  memory, and a view state with its sort key, direction and row count.
\<close>

definition code_unit_compare :: "string \<Rightarrow> string \<Rightarrow> int" where
  "code_unit_compare a b = (if a = b then 0 else if a < b then - 1 else 1)"

definition demo_row :: "real \<Rightarrow> string \<Rightarrow> real \<Rightarrow> proc_row" where
  "demo_row p n m =
     \<lparr>pid = Num p, name = n, cmd = [], cpuSec = Num 0, cpuPct = Num 0, memBytes = Num m,
      estW = Num 0\<rparr>"

definition demo_view :: "sort_key \<Rightarrow> bool \<Rightarrow> int \<Rightarrow> view_state" where
  "demo_view k d n = \<lparr>sortBy = k, sortDesc = d, filterStr = [], topN = n, intervalMs = 1000\<rparr>"

text \<open>
  Formatters for the examples: a natural, or a number of tenths that is not negative,
  prints in decimal, any other finite number as a question mark; \<open>toFixed\<close> rounds half
  up to the given number of decimals.
  And the environment of a tick whose process promise and terminal fault are given.
\<close>

fun dec :: "nat \<Rightarrow> string" where
  "dec n = (if n < 10 then [char_of (48 + n)] else dec (n div 10) @ [char_of (48 + n mod 10)])"

declare dec.simps [simp del]

definition demo_numStr :: "jsnum \<Rightarrow> string" where
  "demo_numStr x =
     (case x of
        Num r \<Rightarrow>
          if 0 \<le> r \<and> r = real (nat \<lfloor>r\<rfloor>) then dec (nat \<lfloor>r\<rfloor>)
          else if 0 \<le> r \<and> r * 10 = real (nat \<lfloor>r * 10\<rfloor>)
          then dec (nat \<lfloor>r * 10\<rfloor> div 10) @ ''.'' @ dec (nat \<lfloor>r * 10\<rfloor> mod 10)
          else ''?''
      | PInf \<Rightarrow> ''Infinity'' | NInf \<Rightarrow> ''-Infinity'' | NaN \<Rightarrow> ''NaN'')"

definition demo_toFixed :: "jsnum \<Rightarrow> nat \<Rightarrow> string" where
  "demo_toFixed x d =
     (case x of
        Num r \<Rightarrow>
          (let n = nat \<lfloor>\<bar>r\<bar> * 10 ^ d + 1 / 2\<rfloor>;
               frac = dec (n mod 10 ^ d)
           in (if r < 0 then ''-'' else []) @ dec (n div 10 ^ d) @
              (if d = 0 then [] else ''.'' @ replicate (d - length frac) CHR ''0'' @ frac))
      | PInf \<Rightarrow> ''Infinity'' | NInf \<Rightarrow> ''-Infinity'' | NaN \<Rightarrow> ''NaN'')"

definition demo_formatters :: formatters where
  "demo_formatters = \<lparr>numStr = demo_numStr, toFixed = demo_toFixed\<rparr>"

definition demo_env :: "(string + proc_row list) \<Rightarrow> (nat \<times> string) option \<Rightarrow> tick_env" where
  "demo_env procs fault =
     \<lparr>system_p = Inr (sampleSystem (demo_config 4) (demo_queries 50 8589934592 6442450944)),
      procs_p = procs, battery_p = Inr None, scheme_p = Inr ''Balanced'',
      clock = ''10:00:00'', columns_now = Some 120, stdout_fault = fault\<rparr>"

section \<open>The pad helper: fixed-width cells\<close>

lemma length_slice0:
  "0 \<le> e \<Longrightarrow> e \<le> int (length s) \<Longrightarrow> length (slice0 s e) = nat e"
  by (simp add: slice0_def)

lemma length_pad: "0 \<le> w \<Longrightarrow> length (pad f t w) = nat w"
  by (auto simp: pad_def Let_def length_slice0)

lemma cols_cmd_nonneg: "0 \<le> cols_cmd width"
  by (simp add: cols_cmd_def)

lemma length_table_header: "length (table_header fm width) = nat (cols_cmd width) + 55"
  by (simp add: table_header_def length_pad cols_cmd_nonneg)

lemma length_table_line: "length (table_line fm width p) = nat (cols_cmd width) + 55"
  by (simp add: table_line_def Let_def length_pad cols_cmd_nonneg)

text \<open>
  Claim C10. For every value, \<^verbatim>\<open>undefined\<close> and \<^verbatim>\<open>null\<close> included (they print as
  the empty string), and every width \<open>0 \<le> w\<close>, \<^verbatim>\<open>pad\<close> returns exactly \<open>w\<close>
  characters: a longer string is cut to its first \<open>w\<close> characters, with no ellipsis, and
  a shorter one gets spaces on the right. Hence the header of the table and the line of
  every process have the same length, whatever the cells hold.
\<close>

theorem pad_fixed_width:
  "0 \<le> w \<Longrightarrow>
   length (pad f t w) = nat w \<and>
   (w < int (length (pad_string f t)) \<longrightarrow> pad f t w = take (nat w) (pad_string f t)) \<and>
   (int (length (pad_string f t)) \<le> w \<longrightarrow>
      pad f t w = pad_string f t @ replicate (nat w - length (pad_string f t)) CHR '' '') \<and>
   pad_string f Undefined = [] \<and> pad_string f Null = [] \<and>
   length (table_header fm width) = nat (cols_cmd width) + 55 \<and>
   length (table_line fm width p) = length (table_header fm width)"
proof (intro conjI impI)
  assume w: "0 \<le> w"
  show "length (pad f t w) = nat w" using w by (rule length_pad)
  show "pad f t w = take (nat w) (pad_string f t)" if "w < int (length (pad_string f t))"
    using w that by (simp add: pad_def slice0_def)
  show "pad f t w = pad_string f t @ replicate (nat w - length (pad_string f t)) CHR '' ''"
    if "int (length (pad_string f t)) \<le> w"
    using w that by (auto simp: pad_def Let_def nat_diff_distrib')
  show "pad_string f Undefined = []" "pad_string f Null = []"
    by (simp_all add: pad_string_def)
  show "length (table_header fm width) = nat (cols_cmd width) + 55"
    by (rule length_table_header)
  show "length (table_line fm width p) = length (table_header fm width)"
    by (simp add: length_table_header length_table_line)
qed

theorem pad_fixed_width_witness:
  "(0::int) \<le> 3 \<and>
   pad (\<lambda>n. ''4242'') (StrV ''chrome.exe'') 3 = ''chr'' \<and>
   pad (\<lambda>n. ''4242'') (NumV (Num 4242)) 6 = ''4242  '' \<and>
   pad (\<lambda>n. ''4242'') Null 2 = ''  '' \<and>
   length (pad (\<lambda>n. ''4242'') (StrV ''chrome.exe'') 3) = 3"
  using pad_fixed_width [of 3 "\<lambda>n. ''4242''" "StrV ''chrome.exe''"]
  by (simp add: pad_def pad_string_def slice0_def eval_nat_numeral)

section \<open>The refresh interval\<close>

lemma floor_08: "\<lfloor>real_of_int x * 0.8\<rfloor> = (4 * x) div 5"
proof -
  have "real_of_int x * 0.8 = real_of_int (4 * x) / real_of_int 5" by simp
  then show ?thesis by (simp only: floor_divide_of_int_eq)
qed

lemma ceiling_125: "\<lceil>real_of_int x * 1.25\<rceil> = - ((- (5 * x)) div 4)"
proof -
  have "- (real_of_int x * 1.25) = real_of_int (- (5 * x)) / real_of_int 4" by simp
  then have "\<lfloor>- (real_of_int x * 1.25)\<rfloor> = (- (5 * x)) div 4"
    by (simp only: floor_divide_of_int_eq)
  then show ?thesis by (simp only: ceiling_def)
qed

lemma on_key_range:
  "200 \<le> intervalMs vs \<Longrightarrow> intervalMs vs \<le> 60000 \<Longrightarrow>
   200 \<le> intervalMs (on_key k vs) \<and> intervalMs (on_key k vs) \<le> 60000"
  unfolding on_key_def floor_08 ceiling_125 by auto

lemma fold_on_key_range:
  "200 \<le> intervalMs vs \<Longrightarrow> intervalMs vs \<le> 60000 \<Longrightarrow>
   200 \<le> intervalMs (fold on_key ks vs) \<and> intervalMs (fold on_key ks vs) \<le> 60000"
  by (induction ks arbitrary: vs) (simp_all add: on_key_range)

text \<open>
  Claim C6, as stated, fails: the start value of \<^verbatim>\<open>intervalMs\<close> is not clamped, \<open>+\<close>
  enforces only the lower bound and \<open>-\<close> only the upper one. Started with
  \<^verbatim>\<open>--interval 100000\<close>, one press of \<open>+\<close> leaves 80000, above 60000.
\<close>

theorem interval_clamp_counterexample:
  "intervalMs (on_key ''+'' \<lparr>sortBy = SortCpu, sortDesc = True, filterStr = [], topN = 20,
      intervalMs = start_intervalMs (Some 100000)\<rparr>) = 80000 \<and>
   \<not> intervalMs (on_key ''+'' \<lparr>sortBy = SortCpu, sortDesc = True, filterStr = [], topN = 20,
      intervalMs = start_intervalMs (Some 100000)\<rparr>) \<le> 60000"
  by (simp add: on_key_def start_intervalMs_def)

text \<open>
  Claim C6, amended. An interval within 200 and 60000 milliseconds, as the default 1000
  is, stays within these bounds under every sequence of key presses. The key \<open>+\<close> sets
  it to the greater of 200 and \<open>\<lfloor>0.8 x\<rfloor>\<close>, the key \<open>-\<close> to the lesser of 60000 and
  \<open>\<lceil>1.25 x\<rceil>\<close>.
\<close>

theorem interval_stays_in_range:
  "200 \<le> intervalMs vs \<Longrightarrow> intervalMs vs \<le> 60000 \<Longrightarrow>
   200 \<le> intervalMs (fold on_key ks vs) \<and> intervalMs (fold on_key ks vs) \<le> 60000 \<and>
   intervalMs (on_key ''+'' vs) = max 200 ((4 * intervalMs vs) div 5) \<and>
   intervalMs (on_key ''-'' vs) = min 60000 (- ((- (5 * intervalMs vs)) div 4)) \<and>
   start_intervalMs None = 1000"
  using fold_on_key_range [of vs ks]
  unfolding on_key_def floor_08 ceiling_125 start_intervalMs_def by simp

theorem interval_stays_in_range_witness:
  "(200::int) \<le> 1000 \<and> (1000::int) \<le> 60000 \<and>
   intervalMs (fold on_key [''+'', ''+'', ''-'', ''r'']
     \<lparr>sortBy = SortCpu, sortDesc = True, filterStr = [], topN = 20, intervalMs = 1000\<rparr>) = 800 \<and>
   intervalMs (fold on_key [''-'', ''-'']
     \<lparr>sortBy = SortCpu, sortDesc = True, filterStr = [], topN = 20, intervalMs = 50000\<rparr>) = 60000"
  using interval_stays_in_range
    [of "\<lparr>sortBy = SortCpu, sortDesc = True, filterStr = [], topN = 20, intervalMs = 1000\<rparr>"
        "[''+'', ''+'', ''-'', ''r'']"]
  unfolding on_key_def floor_08 ceiling_125 by simp

section \<open>The filter\<close>

lemma startsWith_iff: "startsWith s f \<longleftrightarrow> (\<exists>suf. s = f @ suf)"
  by (induction s f rule: startsWith.induct) auto

lemma str_includes_iff: "str_includes s f \<longleftrightarrow> (\<exists>pre suf. s = pre @ f @ suf)"
proof (induction s)
  case Nil
  then show ?case by auto
next
  case (Cons c cs)
  show ?case
  proof
    assume "str_includes (c # cs) f"
    then consider "startsWith (c # cs) f" | "str_includes cs f" by auto
    then show "\<exists>pre suf. c # cs = pre @ f @ suf"
    proof cases
      case 1
      then obtain suf where "c # cs = f @ suf" by (auto simp: startsWith_iff)
      then have "c # cs = [] @ f @ suf" by simp
      then show ?thesis by blast
    next
      case 2
      then obtain pre suf where "cs = pre @ f @ suf" using Cons.IH by auto
      then have "c # cs = (c # pre) @ f @ suf" by simp
      then show ?thesis by blast
    qed
  next
    assume "\<exists>pre suf. c # cs = pre @ f @ suf"
    then obtain pre suf where e: "c # cs = pre @ f @ suf" by auto
    show "str_includes (c # cs) f"
    proof (cases pre)
      case Nil
      with e have "startsWith (c # cs) f" by (auto simp: startsWith_iff)
      then show ?thesis by simp
    next
      case (Cons a pre')
      with e have "cs = pre' @ f @ suf" by simp
      then have "str_includes cs f" using Cons.IH by auto
      then show ?thesis by simp
    qed
  qed
qed

lemma row_matches_iff:
  "fs \<noteq> [] \<Longrightarrow>
   row_matches (toLowerCase fs) r \<longleftrightarrow> ci_substring fs (name r) \<or> ci_substring fs (cmd r)"
  by (auto simp: row_matches_def ci_substring_def str_includes_iff toLowerCase_def)

lemma ci_substring_empty: "ci_substring [] s"
  unfolding ci_substring_def
  by (rule exI[of _ "[]"], rule exI[of _ "toLowerCase s"]) (simp add: toLowerCase_def)

lemma filter_rows_eq:
  "filter_rows fs rows = filter (\<lambda>r. ci_substring fs (name r) \<or> ci_substring fs (cmd r)) rows"
  by (cases "fs = []") (auto simp: filter_rows_def row_matches_iff ci_substring_empty cong: filter_cong)

text \<open>
  Claim C5. A process passes the filter exactly when the filter string is, case ignored,
  a substring of its name or of its command line; the empty filter string keeps every
  process. With the filter \<open>chrome\<close>, the name \<open>Chrome Helper\<close> passes and the name
  \<open>chromium\<close> does not.
\<close>

theorem filter_case_insensitive_substring:
  "filter_rows fs rows = filter (\<lambda>r. ci_substring fs (name r) \<or> ci_substring fs (cmd r)) rows \<and>
   (r \<in> set (filter_rows fs rows) \<longleftrightarrow>
      r \<in> set rows \<and> (ci_substring fs (name r) \<or> ci_substring fs (cmd r))) \<and>
   filter_rows [] rows = rows \<and>
   ci_substring ''chrome'' ''Chrome Helper'' \<and> \<not> ci_substring ''chrome'' ''chromium''"
proof (intro conjI)
  show "filter_rows fs rows = filter (\<lambda>r. ci_substring fs (name r) \<or> ci_substring fs (cmd r)) rows"
    by (rule filter_rows_eq)
  show "r \<in> set (filter_rows fs rows) \<longleftrightarrow>
      r \<in> set rows \<and> (ci_substring fs (name r) \<or> ci_substring fs (cmd r))"
    by (simp add: filter_rows_eq)
  show "filter_rows [] rows = rows" by (simp add: filter_rows_def)
  have "str_includes (toLowerCase ''Chrome Helper'') (toLowerCase ''chrome'')" by code_simp
  then show "ci_substring ''chrome'' ''Chrome Helper''"
    unfolding ci_substring_def str_includes_iff .
  have "\<not> str_includes (toLowerCase ''chromium'') (toLowerCase ''chrome'')" by code_simp
  then show "\<not> ci_substring ''chrome'' ''chromium''"
    unfolding ci_substring_def str_includes_iff .
qed

theorem filter_case_insensitive_substring_witness:
  "filter_rows ''chrome''
     [\<lparr>pid = Num 1, name = ''Chrome Helper'', cmd = [], cpuSec = Num 0, cpuPct = Num 0,
        memBytes = Num 0, estW = Num 0\<rparr>,
      \<lparr>pid = Num 2, name = ''chromium'', cmd = [], cpuSec = Num 0, cpuPct = Num 0,
        memBytes = Num 0, estW = Num 0\<rparr>,
      \<lparr>pid = Num 3, name = ''node.exe'', cmd = ''node C:/apps/CHROME/run.js'', cpuSec = Num 0,
        cpuPct = Num 0, memBytes = Num 0, estW = Num 0\<rparr>]
   = [\<lparr>pid = Num 1, name = ''Chrome Helper'', cmd = [], cpuSec = Num 0, cpuPct = Num 0,
        memBytes = Num 0, estW = Num 0\<rparr>,
      \<lparr>pid = Num 3, name = ''node.exe'', cmd = ''node C:/apps/CHROME/run.js'', cpuSec = Num 0,
        cpuPct = Num 0, memBytes = Num 0, estW = Num 0\<rparr>] \<and>
   ci_substring ''chrome'' ''Chrome Helper'' \<and> \<not> ci_substring ''chrome'' ''chromium''"
proof -
  have "filter_rows ''chrome''
     [\<lparr>pid = Num 1, name = ''Chrome Helper'', cmd = [], cpuSec = Num 0, cpuPct = Num 0,
        memBytes = Num 0, estW = Num 0\<rparr>,
      \<lparr>pid = Num 2, name = ''chromium'', cmd = [], cpuSec = Num 0, cpuPct = Num 0,
        memBytes = Num 0, estW = Num 0\<rparr>,
      \<lparr>pid = Num 3, name = ''node.exe'', cmd = ''node C:/apps/CHROME/run.js'', cpuSec = Num 0,
        cpuPct = Num 0, memBytes = Num 0, estW = Num 0\<rparr>]
   = [\<lparr>pid = Num 1, name = ''Chrome Helper'', cmd = [], cpuSec = Num 0, cpuPct = Num 0,
        memBytes = Num 0, estW = Num 0\<rparr>,
      \<lparr>pid = Num 3, name = ''node.exe'', cmd = ''node C:/apps/CHROME/run.js'', cpuSec = Num 0,
        cpuPct = Num 0, memBytes = Num 0, estW = Num 0\<rparr>]"
    by code_simp
  then show ?thesis
    using filter_case_insensitive_substring [of "''chrome''" "[]"] by simp
qed

section \<open>The CPU history\<close>

lemma dom_fold_upd:
  "dom (fold (\<lambda>r m. m(k r \<mapsto> v r)) rows m) = dom m \<union> k ` set rows"
  by (induction rows arbitrary: m) auto

lemma fold_upd_notin:
  "x \<notin> k ` set rows \<Longrightarrow> fold (\<lambda>r m. m(k r \<mapsto> v r)) rows m x = m x"
  by (induction rows arbitrary: m) auto

lemma fold_upd_distinct:
  "distinct (map k rows) \<Longrightarrow> r \<in> set rows \<Longrightarrow>
   fold (\<lambda>r m. m(k r \<mapsto> v r)) rows m (k r) = Some (v r)"
proof (induction rows arbitrary: m)
  case Nil
  then show ?case by simp
next
  case (Cons a rows)
  show ?case
  proof (cases "r = a")
    case True
    with Cons.prems have "k a \<notin> k ` set rows" by simp
    then have "fold (\<lambda>r m. m(k r \<mapsto> v r)) rows (m(k a \<mapsto> v a)) (k a) = (m(k a \<mapsto> v a)) (k a)"
      by (rule fold_upd_notin)
    then show ?thesis using True by (simp del: fun_upd_apply add: fun_upd_same)
  next
    case False
    with Cons show ?thesis by simp
  qed
qed

lemma fold_upd_last:
  "r \<in> set rows \<Longrightarrow>
   \<exists>q\<in>set rows. k q = k r \<and> fold (\<lambda>r m. m(k r \<mapsto> v r)) rows m (k r) = Some (v q)"
proof (induction rows arbitrary: m r)
  case Nil
  then show ?case by simp
next
  case (Cons a rows)
  show ?case
  proof (cases "k r \<in> k ` set rows")
    case True
    then obtain r' where r': "r' \<in> set rows" "k r' = k r" by auto
    from Cons.IH[OF r'(1), of "m(k a \<mapsto> v a)"] r'(2) show ?thesis by (auto simp del: fun_upd_apply simp add: fun_upd_same)
  next
    case False
    with Cons.prems have ra: "r = a" by auto
    from False have "fold (\<lambda>r m. m(k r \<mapsto> v r)) rows (m(k a \<mapsto> v a)) (k r) = (m(k a \<mapsto> v a)) (k r)"
      by (rule fold_upd_notin)
    with ra show ?thesis by (simp del: fun_upd_apply add: fun_upd_same)
  qed
qed

lemma pid_process_row [simp]: "pid (process_row cfg h dt p) = raw_pid p"
  by (simp add: process_row_def Let_def)

lemma cpuSec_process_row [simp]: "cpuSec (process_row cfg h dt p) = raw_cpuSec p"
  by (simp add: process_row_def Let_def)

lemma fold_map_rows:
  "fold (\<lambda>r m. m(pid r \<mapsto> cpuSec r)) (map (process_row cfg h dt) raw) m
   = fold (\<lambda>p m. m(raw_pid p \<mapsto> raw_cpuSec p)) raw m"
  by (simp add: fold_map comp_def)

lemma prevCpuMap_sampleProcesses:
  "prevCpuMap (snd (sampleProcesses cfg st now raw))
   = fold (\<lambda>p m. m(raw_pid p \<mapsto> raw_cpuSec p)) raw Map.empty"
  by (simp add: sampleProcesses_def Let_def fold_map_rows)

text \<open>
  Claim C3. After a tick, whatever the history held before, \<^verbatim>\<open>prevCpuMap\<close> has
  exactly the pids of the raw sample of this tick as its keys: every sampled pid is mapped
  to the cumulative CPU seconds of a sampled process with that pid (of the process itself
  when the pids of the sample are distinct), and every other pid has no entry. The rows
  carry the same pids and CPU seconds.
\<close>

theorem cpu_history_exact:
  "dom (prevCpuMap (snd (sampleProcesses cfg st now raw))) = raw_pid ` set raw \<and>
   map pid (fst (sampleProcesses cfg st now raw)) = map raw_pid raw \<and>
   map cpuSec (fst (sampleProcesses cfg st now raw)) = map raw_cpuSec raw \<and>
   (distinct (map raw_pid raw) \<longrightarrow>
      (\<forall>p\<in>set raw. prevCpuMap (snd (sampleProcesses cfg st now raw)) (raw_pid p) = Some (raw_cpuSec p))) \<and>
   (\<forall>p\<in>set raw. \<exists>q\<in>set raw. raw_pid q = raw_pid p \<and>
      prevCpuMap (snd (sampleProcesses cfg st now raw)) (raw_pid p) = Some (raw_cpuSec q)) \<and>
   (\<forall>k. k \<notin> raw_pid ` set raw \<longrightarrow> prevCpuMap (snd (sampleProcesses cfg st now raw)) k = None)"
proof (intro conjI)
  show "dom (prevCpuMap (snd (sampleProcesses cfg st now raw))) = raw_pid ` set raw"
    by (simp add: prevCpuMap_sampleProcesses dom_fold_upd)
  show "map pid (fst (sampleProcesses cfg st now raw)) = map raw_pid raw"
    by (simp add: sampleProcesses_def Let_def)
  show "map cpuSec (fst (sampleProcesses cfg st now raw)) = map raw_cpuSec raw"
    by (simp add: sampleProcesses_def Let_def)
  show "distinct (map raw_pid raw) \<longrightarrow>
      (\<forall>p\<in>set raw. prevCpuMap (snd (sampleProcesses cfg st now raw)) (raw_pid p) = Some (raw_cpuSec p))"
    by (simp add: prevCpuMap_sampleProcesses fold_upd_distinct)
  show "\<forall>p\<in>set raw. \<exists>q\<in>set raw. raw_pid q = raw_pid p \<and>
      prevCpuMap (snd (sampleProcesses cfg st now raw)) (raw_pid p) = Some (raw_cpuSec q)"
  proof
    fix p assume "p \<in> set raw"
    then show "\<exists>q\<in>set raw. raw_pid q = raw_pid p \<and>
      prevCpuMap (snd (sampleProcesses cfg st now raw)) (raw_pid p) = Some (raw_cpuSec q)"
      unfolding prevCpuMap_sampleProcesses by (rule fold_upd_last)
  qed
  show "\<forall>k. k \<notin> raw_pid ` set raw \<longrightarrow> prevCpuMap (snd (sampleProcesses cfg st now raw)) k = None"
    by (simp add: prevCpuMap_sampleProcesses fold_upd_notin)
qed

theorem cpu_history_exact_witness:
  "prevCpuMap (snd (sampleProcesses (demo_config 4)
       (seed 0 [demo_process 1 10000000 0 0, demo_process 2 20000000 0 0]) 1000
       [demo_process 2 25000000 0 0, demo_process 3 5000000 0 0])) (Num 1) = None \<and>
   prevCpuMap (snd (sampleProcesses (demo_config 4)
       (seed 0 [demo_process 1 10000000 0 0, demo_process 2 20000000 0 0]) 1000
       [demo_process 2 25000000 0 0, demo_process 3 5000000 0 0])) (Num 2) = Some (Num 2.5) \<and>
   prevCpuMap (snd (sampleProcesses (demo_config 4)
       (seed 0 [demo_process 1 10000000 0 0, demo_process 2 20000000 0 0]) 1000
       [demo_process 2 25000000 0 0, demo_process 3 5000000 0 0])) (Num 3) = Some (Num 0.5) \<and>
   prevCpuMap (seed 0 [demo_process 1 10000000 0 0, demo_process 2 20000000 0 0]) (Num 1)
     = Some (Num 1)"
  using cpu_history_exact [of "demo_config 4"
      "seed 0 [demo_process 1 10000000 0 0, demo_process 2 20000000 0 0]" 1000
      "[demo_process 2 25000000 0 0, demo_process 3 5000000 0 0]"]
  by (simp add: sampleProcesses_def process_row_def Let_def demo_process_def seed_def
      num_or0_def or0_def raw_pid_def raw_cpuSec_def)

section \<open>The instantaneous CPU share\<close>

lemma jmax0_cases: "nonneg_or_special (jmax (Num 0) x)"
  by (cases x) (auto simp: nonneg_num_def nonneg_or_special_def)

lemma jdiv_pos_cases:
  "0 < d \<Longrightarrow> nonneg_or_special x \<Longrightarrow> nonneg_or_special (jdiv x (Num d))"
  by (cases x) (auto simp: nonneg_num_def nonneg_or_special_def)

lemma jmul_pos_cases:
  "0 < d \<Longrightarrow> nonneg_or_special x \<Longrightarrow> nonneg_or_special (jmul x (Num d))"
  by (cases x) (auto simp: nonneg_num_def nonneg_or_special_def)

lemma finite_or0_nonneg:
  "nonneg_or_special x \<Longrightarrow> nonneg_num (if isFinite x then x else Num 0)"
  by (cases x) (auto simp: nonneg_num_def nonneg_or_special_def)

lemma dtSec_pos: "0 < dtSec now prev"
  by (simp add: dtSec_def max_def)

lemma cpuPct_process_row_nonneg:
  assumes dt: "0 < dt"
  shows "nonneg_num (cpuPct (process_row cfg h dt p))"
proof -
  define delta where "delta = jmax (Num 0) (jsub (raw_cpuSec p) (num_or0 (h (raw_pid p))))"
  define cores where "cores = max 1 (real (logicalCores cfg))"
  define pct where "pct = jmul (jdiv (jdiv delta (Num dt)) (Num cores)) (Num 100)"
  have c: "jmax (Num 1) (Num (real (logicalCores cfg))) = Num cores" by (simp add: cores_def)
  have "0 < cores" by (simp add: cores_def)
  have "nonneg_or_special delta" unfolding delta_def by (rule jmax0_cases)
  then have "nonneg_or_special (jdiv delta (Num dt))" using dt by (simp add: jdiv_pos_cases)
  then have "nonneg_or_special (jdiv (jdiv delta (Num dt)) (Num cores))"
    using \<open>0 < cores\<close> by (simp add: jdiv_pos_cases)
  then have "nonneg_or_special pct" unfolding pct_def by (simp add: jmul_pos_cases)
  then have "nonneg_num (if isFinite pct then pct else Num 0)" by (rule finite_or0_nonneg)
  moreover have "cpuPct (process_row cfg h dt p) = (if isFinite pct then pct else Num 0)"
    by (simp add: process_row_def Let_def pct_def delta_def cores_def)
  ultimately show ?thesis by simp
qed

lemma rows_nth:
  "i < length raw \<Longrightarrow>
   fst (sampleProcesses cfg st now raw) ! i
   = process_row cfg (prevCpuMap st) (dtSec now (prevSampleTime st)) (raw ! i)"
  by (simp add: sampleProcesses_def Let_def)


lemma cpuPct_process_row_finite:
  assumes "raw_cpuSec p = Num s" "num_or0 (h (raw_pid p)) = Num c" "0 < dt"
  shows "cpuPct (process_row cfg h dt p) = Num (max 0 (s - c) / dt / max 1 (real (logicalCores cfg)) * 100)"
  using assms by (simp add: process_row_def Let_def jsub_def)



text \<open>
  Claim C7. Every row of every tick has a \<open>cpuPct\<close> that is a finite number and not
  negative, whatever the raw sample and the history hold: a share that is not finite is
  replaced by 0. When the cumulative CPU seconds of a process are not above the previous
  value for its pid (a pid that was reused), the share is 0.
\<close>

theorem instant_cpu_percent_nonneg:
  "(\<forall>r\<in>set (fst (sampleProcesses cfg st now raw)). \<exists>x. cpuPct r = Num x \<and> 0 \<le> x) \<and>
   (\<forall>i<length raw. \<forall>s c.
      raw_cpuSec (raw ! i) = Num s \<and> num_or0 (prevCpuMap st (raw_pid (raw ! i))) = Num c \<and> s \<le> c \<longrightarrow>
      cpuPct (fst (sampleProcesses cfg st now raw) ! i) = Num 0)"
proof (intro conjI ballI allI impI)
  fix r assume "r \<in> set (fst (sampleProcesses cfg st now raw))"
  then obtain p where "r = process_row cfg (prevCpuMap st) (dtSec now (prevSampleTime st)) p"
    by (auto simp: sampleProcesses_def Let_def)
  then have "nonneg_num (cpuPct r)" using dtSec_pos by (simp add: cpuPct_process_row_nonneg)
  then show "\<exists>x. cpuPct r = Num x \<and> 0 \<le> x" by (simp add: nonneg_num_def)
next
  fix i s c
  assume i: "i < length raw"
    and h: "raw_cpuSec (raw ! i) = Num s \<and> num_or0 (prevCpuMap st (raw_pid (raw ! i))) = Num c \<and> s \<le> c"
  then show "cpuPct (fst (sampleProcesses cfg st now raw) ! i) = Num 0"
    using cpuPct_process_row_finite[of "raw ! i" s "prevCpuMap st" c "dtSec now (prevSampleTime st)" cfg] dtSec_pos
    by (simp add: rows_nth)
qed

theorem instant_cpu_percent_nonneg_witness:
  "cpuPct (fst (sampleProcesses (demo_config 4) (seed 0 [demo_process 42 20000000 30000000 0]) 1000
      [demo_process 42 500000 1500000 0]) ! 0) = Num 0 \<and>
   cpuPct (fst (sampleProcesses (demo_config 4) (seed 0 [demo_process 42 20000000 30000000 0]) 1000
      [\<lparr>ProcessId = Some (Num 7), Name = None, CommandLine = None,
        KernelModeTime = Some PInf, UserModeTime = Some NInf, WorkingSetSize = None\<rparr>]) ! 0) = Num 0"
  using instant_cpu_percent_nonneg [of "demo_config 4"
      "seed 0 [demo_process 42 20000000 30000000 0]" 1000 "[demo_process 42 500000 1500000 0]"]
  by (simp add: sampleProcesses_def process_row_def Let_def dtSec_def jsub_def demo_process_def
      demo_config_def seed_def num_or0_def or0_def raw_pid_def raw_cpuSec_def)

section \<open>The power model\<close>




lemma memBytes_process_row [simp]: "memBytes (process_row cfg h dt p) = num_or0 (WorkingSetSize p)"
  by (simp add: process_row_def Let_def)





section \<open>The ranking\<close>

lemma mset_js_insert: "mset (js_insert c x ys) = add_mset x (mset ys)"
  by (induction ys) auto

lemma mset_js_sort: "mset (js_sort c xs) = mset xs"
  by (induction xs) (auto simp: mset_js_insert)

lemma set_js_insert: "set (js_insert c x ys) = insert x (set ys)"
  by (simp add: mset_js_insert flip: set_mset_mset)

lemma set_js_sort: "set (js_sort c xs) = set xs"
  by (simp add: mset_js_sort flip: set_mset_mset)

lemma consistent_onD:
  assumes "consistent_on S c le"
  shows "\<And>a b. a \<in> S \<Longrightarrow> b \<in> S \<Longrightarrow> sorts_after c a b \<longleftrightarrow> \<not> le a b"
    and "\<And>a b. a \<in> S \<Longrightarrow> b \<in> S \<Longrightarrow> le a b \<or> le b a"
    and "\<And>a b d. a \<in> S \<Longrightarrow> b \<in> S \<Longrightarrow> d \<in> S \<Longrightarrow> le a b \<Longrightarrow> le b d \<Longrightarrow> le a d"
  using assms unfolding consistent_on_def by blast+

lemma sorted_js_insert:
  assumes co: "consistent_on S c le"
  shows "x \<in> S \<Longrightarrow> set ys \<subseteq> S \<Longrightarrow> sorted_wrt le ys \<Longrightarrow> sorted_wrt le (js_insert c x ys)"
proof (induction ys)
  case Nil
  then show ?case by simp
next
  case (Cons y ys)
  note link = consistent_onD(1)[OF co] and tot = consistent_onD(2)[OF co]
    and tr = consistent_onD(3)[OF co]
  show ?case
  proof (cases "sorts_after c x y")
    case True
    with Cons.prems link have "\<not> le x y" by simp
    with Cons.prems tot[of x y] have yx: "le y x" by auto
    have "sorted_wrt le (js_insert c x ys)" using Cons by simp
    moreover have "\<forall>z\<in>set (js_insert c x ys). le y z"
      using Cons.prems yx by (auto simp: set_js_insert)
    ultimately show ?thesis using True by simp
  next
    case False
    with Cons.prems link have xy: "le x y" by simp
    have "\<forall>z\<in>set ys. le x z"
    proof
      fix z assume z: "z \<in> set ys"
      with Cons.prems have "le y z" by simp
      with xy show "le x z" using tr[of x y z] Cons.prems z by auto
    qed
    with xy Cons.prems False show ?thesis by simp
  qed
qed

lemma sorted_js_sort:
  assumes co: "consistent_on S c le"
  shows "set xs \<subseteq> S \<Longrightarrow> sorted_wrt le (js_sort c xs)"
proof (induction xs)
  case Nil
  then show ?case by simp
next
  case (Cons x xs)
  then have "sorted_wrt le (js_sort c xs)" by simp
  moreover have "x \<in> S" "set (js_sort c xs) \<subseteq> S" using Cons.prems by (auto simp: set_js_sort)
  ultimately show ?case
    using sorted_js_insert[OF co, of x "js_sort c xs"] by simp
qed

lemma filter_js_insert:
  assumes co: "consistent_on S c le" and k: "k \<in> S"
  shows "x \<in> S \<Longrightarrow> set ys \<subseteq> S \<Longrightarrow>
    filter (\<lambda>y. le k y \<and> le y k) (js_insert c x ys) = filter (\<lambda>y. le k y \<and> le y k) (x # ys)"
proof (induction ys)
  case Nil
  then show ?case by simp
next
  case (Cons y ys)
  note link = consistent_onD(1)[OF co] and tr = consistent_onD(3)[OF co]
  show ?case
  proof (cases "sorts_after c x y")
    case True
    with Cons.prems link have nxy: "\<not> le x y" by simp
    have "\<not> ((le k x \<and> le x k) \<and> (le k y \<and> le y k))"
    proof
      assume "(le k x \<and> le x k) \<and> (le k y \<and> le y k)"
      then have "le x y" using tr[of x k y] k Cons.prems by auto
      with nxy show False by simp
    qed
    moreover have "filter (\<lambda>y. le k y \<and> le y k) (js_insert c x ys)
        = filter (\<lambda>y. le k y \<and> le y k) (x # ys)"
      using Cons by simp
    ultimately show ?thesis using True by auto
  next
    case False
    then show ?thesis by simp
  qed
qed

lemma filter_js_sort:
  assumes co: "consistent_on S c le" and k: "k \<in> S"
  shows "set xs \<subseteq> S \<Longrightarrow>
    filter (\<lambda>y. le k y \<and> le y k) (js_sort c xs) = filter (\<lambda>y. le k y \<and> le y k) xs"
proof (induction xs)
  case Nil
  then show ?case by simp
next
  case (Cons x xs)
  have "x \<in> S" "set (js_sort c xs) \<subseteq> S" using Cons.prems by (auto simp: set_js_sort)
  then have "filter (\<lambda>y. le k y \<and> le y k) (js_insert c x (js_sort c xs))
      = filter (\<lambda>y. le k y \<and> le y k) (x # js_sort c xs)"
    by (rule filter_js_insert[OF co k])
  then show ?case using Cons by simp
qed

lemma jgt_asym: "jgt x y \<Longrightarrow> \<not> jgt y x"
  by (cases x; cases y) auto

lemma not_jgt_trans:
  "x \<noteq> NaN \<Longrightarrow> y \<noteq> NaN \<Longrightarrow> z \<noteq> NaN \<Longrightarrow> \<not> jgt x y \<Longrightarrow> \<not> jgt y z \<Longrightarrow> \<not> jgt x z"
  by (cases x; cases y; cases z) auto

lemma sorts_after_asc:
  "x \<noteq> NaN \<Longrightarrow> y \<noteq> NaN \<Longrightarrow> jgt (jmul (Num 1) (jsub x y)) (Num 0) \<longleftrightarrow> jgt x y"
  by (cases x; cases y) (auto simp: jsub_def)

lemma sorts_after_desc:
  "x \<noteq> NaN \<Longrightarrow> y \<noteq> NaN \<Longrightarrow> jgt (jmul (Num (- 1)) (jsub x y)) (Num 0) \<longleftrightarrow> jgt y x"
  by (cases x; cases y) (auto simp: jsub_def)

lemma rank_link:
  assumes "consistent_comparator lc" "comparable_row a" "comparable_row b"
  shows "sorts_after (directed_cmp lc vs) a b \<longleftrightarrow> \<not> rank_le lc vs a b"
proof -
  have n: "0 < lc (name a) (name b) \<longleftrightarrow> lc (name b) (name a) < 0"
    "0 < lc (name b) (name a) \<longleftrightarrow> lc (name a) (name b) < 0"
    using assms(1) by (simp_all add: consistent_comparator_def)
  show ?thesis
    using n assms(2,3) by (cases "sortBy vs")
      (auto simp: sorts_after_def directed_cmp_def cmpMap_def rank_le_def key_le_def
         comparable_row_def sorts_after_asc sorts_after_desc)
qed

lemma rank_total:
  assumes "consistent_comparator lc"
  shows "rank_le lc vs a b \<or> rank_le lc vs b a"
proof -
  have n: "0 < lc (name a) (name b) \<longleftrightarrow> lc (name b) (name a) < 0"
    "0 < lc (name b) (name a) \<longleftrightarrow> lc (name a) (name b) < 0"
    using assms(1) by (simp_all add: consistent_comparator_def)
  show ?thesis
    using n by (cases "sortBy vs") (auto simp: rank_le_def key_le_def dest: jgt_asym)
qed

lemma key_le_trans:
  assumes lc: "consistent_comparator lc"
    and c: "comparable_row a" "comparable_row b" "comparable_row d"
    and le: "key_le lc k a b" "key_le lc k b d"
  shows "key_le lc k a d"
proof (cases k)
  case SortCpu
  with le not_jgt_trans[of "cpuPct a" "cpuPct b" "cpuPct d"] c show ?thesis
    by (simp add: key_le_def comparable_row_def)
next
  case SortMem
  with le not_jgt_trans[of "memBytes a" "memBytes b" "memBytes d"] c show ?thesis
    by (simp add: key_le_def comparable_row_def)
next
  case SortPid
  with le not_jgt_trans[of "pid a" "pid b" "pid d"] c show ?thesis
    by (simp add: key_le_def comparable_row_def)
next
  case SortName
  have "lc (name a) (name b) \<le> 0 \<and> lc (name b) (name d) \<le> 0 \<longrightarrow> lc (name a) (name d) \<le> 0"
    using lc unfolding consistent_comparator_def by blast
  with SortName le show ?thesis by (simp add: key_le_def)
next
  case SortPower
  with le not_jgt_trans[of "estW a" "estW b" "estW d"] c show ?thesis
    by (simp add: key_le_def comparable_row_def)
qed

lemma rank_trans:
  assumes "consistent_comparator lc" "comparable_row a" "comparable_row b" "comparable_row d"
    "rank_le lc vs a b" "rank_le lc vs b d"
  shows "rank_le lc vs a d"
proof (cases "sortDesc vs")
  case True
  with assms(5,6) have "key_le lc (sortBy vs) d b" "key_le lc (sortBy vs) b a"
    by (simp_all add: rank_le_def)
  then have "key_le lc (sortBy vs) d a"
    using assms(1-4) by (intro key_le_trans[of lc d b a]) simp_all
  with True show ?thesis by (simp add: rank_le_def)
next
  case False
  with assms(5,6) have "key_le lc (sortBy vs) a b" "key_le lc (sortBy vs) b d"
    by (simp_all add: rank_le_def)
  then have "key_le lc (sortBy vs) a d"
    using assms(1-4) by (intro key_le_trans[of lc a b d]) simp_all
  with False show ?thesis by (simp add: rank_le_def)
qed

lemma rank_consistent_on:
  assumes "consistent_comparator lc"
  shows "consistent_on {r. comparable_row r} (directed_cmp lc vs) (rank_le lc vs)"
  unfolding consistent_on_def
proof (intro conjI ballI impI)
  fix a b assume "a \<in> {r. comparable_row r}" "b \<in> {r. comparable_row r}"
  then show "sorts_after (directed_cmp lc vs) a b \<longleftrightarrow> \<not> rank_le lc vs a b"
    using rank_link[OF assms] by simp
next
  fix a b
  show "rank_le lc vs a b \<or> rank_le lc vs b a"
    using assms by (rule rank_total)
next
  fix a b d assume "a \<in> {r. comparable_row r}" "b \<in> {r. comparable_row r}" "d \<in> {r. comparable_row r}"
    "rank_le lc vs a b" "rank_le lc vs b d"
  then show "rank_le lc vs a d"
    using rank_trans[OF assms, of a b d vs] by simp
qed

lemma set_filter_rows: "set (filter_rows fs rows) \<subseteq> set rows"
  by (auto simp: filter_rows_def)

lemma num_or0_not_NaN: "num_or0 x \<noteq> NaN"
  by (cases x) (auto simp: num_or0_def or0_def)

lemma finite_not_NaN: "(if isFinite x then x else Num 0) \<noteq> NaN"
  by (cases x) auto

lemma comparable_process_row: "comparable_row (process_row cfg h dt p)"
  by (simp add: comparable_row_def process_row_def Let_def raw_pid_def num_or0_not_NaN
      finite_not_NaN del: isFinite.simps)

lemma comparable_sampleProcesses:
  "\<forall>r\<in>set (fst (sampleProcesses cfg st now raw)). comparable_row r"
  by (auto simp: sampleProcesses_def Let_def comparable_process_row)

text \<open>
  Claim C4. For a row count \<open>0 \<le> topN\<close>, rows without NaN in their numeric fields
  (every row of the sampler is one) and a consistent comparator of names: the result is
  the first \<open>topN\<close> rows of the sorted array; the sorted array is a rearrangement of
  all the rows that pass the filter; it is sorted by the selected key in the selected
  direction; and the rows tied with any given row stand in it in the order they had in
  the input. Sorting the example of the specification by memory, descending, gives the
  pids 2, 1, 3.
\<close>

theorem ranking_stable_sort:
  "\<lbrakk>0 \<le> topN vs; \<forall>r\<in>set rows. comparable_row r; consistent_comparator lc\<rbrakk> \<Longrightarrow>
   sortAndFilterProcesses lc vs rows = take (nat (topN vs)) (sorted_rows lc vs rows) \<and>
   mset (sorted_rows lc vs rows) = mset (filter_rows (filterStr vs) rows) \<and>
   sorted_wrt (rank_le lc vs) (sorted_rows lc vs rows) \<and>
   (\<forall>x\<in>set rows. filter (rank_tied lc vs x) (sorted_rows lc vs rows)
                  = filter (rank_tied lc vs x) (filter_rows (filterStr vs) rows)) \<and>
   (\<forall>r\<in>set (fst (sampleProcesses cfg st now raw)). comparable_row r)"
proof (intro conjI)
  assume top: "0 \<le> topN vs" and fin: "\<forall>r\<in>set rows. comparable_row r"
    and lc: "consistent_comparator lc"
  have co: "consistent_on {r. comparable_row r} (directed_cmp lc vs) (rank_le lc vs)"
    using lc by (rule rank_consistent_on)
  have sub: "set (filter_rows (filterStr vs) rows) \<subseteq> {r. comparable_row r}"
    using fin set_filter_rows[of "filterStr vs" rows] by auto
  show "sortAndFilterProcesses lc vs rows = take (nat (topN vs)) (sorted_rows lc vs rows)"
    using top by (simp add: sortAndFilterProcesses_def sorted_rows_def slice0_def Let_def)
  show "mset (sorted_rows lc vs rows) = mset (filter_rows (filterStr vs) rows)"
    by (simp add: sorted_rows_def mset_js_sort)
  show "sorted_wrt (rank_le lc vs) (sorted_rows lc vs rows)"
    unfolding sorted_rows_def using co sub by (rule sorted_js_sort)
  show "\<forall>r\<in>set (fst (sampleProcesses cfg st now raw)). comparable_row r"
    by (rule comparable_sampleProcesses)
  show "\<forall>x\<in>set rows. filter (rank_tied lc vs x) (sorted_rows lc vs rows)
         = filter (rank_tied lc vs x) (filter_rows (filterStr vs) rows)"
  proof
    fix x assume that: "x \<in> set rows"
    have "x \<in> {r. comparable_row r}" using that fin by simp
    with co have "filter (\<lambda>y. rank_le lc vs x y \<and> rank_le lc vs y x)
              (js_sort (directed_cmp lc vs) (filter_rows (filterStr vs) rows))
          = filter (\<lambda>y. rank_le lc vs x y \<and> rank_le lc vs y x) (filter_rows (filterStr vs) rows)"
      using sub by (rule filter_js_sort)
    then show "filter (rank_tied lc vs x) (sorted_rows lc vs rows)
         = filter (rank_tied lc vs x) (filter_rows (filterStr vs) rows)"
      by (simp add: sorted_rows_def rank_tied_def[abs_def])
  qed
qed

lemma consistent_code_unit_compare: "consistent_comparator code_unit_compare"
  unfolding consistent_comparator_def code_unit_compare_def by (auto split: if_splits)

theorem ranking_stable_sort_witness:
  "sorted_wrt (rank_le code_unit_compare (demo_view SortMem True 20))
     (sorted_rows code_unit_compare (demo_view SortMem True 20)
        [demo_row 1 ''a'' 100, demo_row 2 ''b'' 300, demo_row 3 ''c'' 100]) \<and>
   map pid (sortAndFilterProcesses code_unit_compare (demo_view SortMem True 20)
     [demo_row 1 ''a'' 100, demo_row 2 ''b'' 300, demo_row 3 ''c'' 100]) = [Num 2, Num 1, Num 3] \<and>
   map pid (sortAndFilterProcesses code_unit_compare (demo_view SortMem False 2)
     [demo_row 1 ''a'' 100, demo_row 2 ''b'' 300, demo_row 3 ''c'' 100]) = [Num 1, Num 3] \<and>
   map pid (sortAndFilterProcesses code_unit_compare (demo_view SortName True 2)
     [demo_row 1 ''a'' 100, demo_row 2 ''b'' 300, demo_row 3 ''c'' 100]) = [Num 3, Num 2]"
proof -
  have top: "0 \<le> topN (demo_view SortMem True 20)" by (simp add: demo_view_def)
  have fin: "\<forall>r\<in>set [demo_row 1 ''a'' 100, demo_row 2 ''b'' 300, demo_row 3 ''c'' 100]. comparable_row r"
    by (simp add: demo_row_def comparable_row_def)
  have s: "sorted_wrt (rank_le code_unit_compare (demo_view SortMem True 20))
     (sorted_rows code_unit_compare (demo_view SortMem True 20)
        [demo_row 1 ''a'' 100, demo_row 2 ''b'' 300, demo_row 3 ''c'' 100])"
    using ranking_stable_sort [OF top fin consistent_code_unit_compare,
        where cfg = "demo_config 4" and st = "seed 0 []" and now = 0 and raw = "[]"]
    by (elim conjE)
  have e1: "map pid (sortAndFilterProcesses code_unit_compare (demo_view SortMem True 20)
     [demo_row 1 ''a'' 100, demo_row 2 ''b'' 300, demo_row 3 ''c'' 100]) = [Num 2, Num 1, Num 3]"
    by (simp add: sortAndFilterProcesses_def filter_rows_def slice0_def directed_cmp_def cmpMap_def
      sorts_after_def jsub_def demo_row_def demo_view_def)
  have e2: "map pid (sortAndFilterProcesses code_unit_compare (demo_view SortMem False 2)
     [demo_row 1 ''a'' 100, demo_row 2 ''b'' 300, demo_row 3 ''c'' 100]) = [Num 1, Num 3]"
    by (simp add: sortAndFilterProcesses_def filter_rows_def slice0_def directed_cmp_def cmpMap_def
      sorts_after_def jsub_def demo_row_def demo_view_def)
  have e3: "map pid (sortAndFilterProcesses code_unit_compare (demo_view SortName True 2)
     [demo_row 1 ''a'' 100, demo_row 2 ''b'' 300, demo_row 3 ''c'' 100]) = [Num 3, Num 2]"
    by (simp add: sortAndFilterProcesses_def filter_rows_def slice0_def directed_cmp_def cmpMap_def
      sorts_after_def jsub_def demo_row_def demo_view_def code_unit_compare_def)
  show ?thesis using s e1 e2 e3 by (intro conjI)
qed

section \<open>The renderer\<close>




lemma length_render: "length (render fm ts columns cfg vs system processes battery powerScheme) = 13 + length processes"
  by (simp add: render_def Let_def)




section \<open>The main loop never stops on a failed tick\<close>

lemma timer_tick: "timer (tick fm lc cfg vs env) = Some (intervalMs vs)"
  by (simp add: tick_def split: prod.splits)

lemma console_error_tick:
  "console_error (tick fm lc cfg vs env)
   = (case snd (tick_try fm lc cfg vs env) of None \<Rightarrow> None | Some e \<Rightarrow> Some (''Error: '' @ e))"
  by (simp add: tick_def split: prod.splits)

lemma written_tick: "written (tick fm lc cfg vs env) = fst (tick_try fm lc cfg vs env)"
  by (simp add: tick_def split: prod.splits)

lemma tick_try_rejected:
  "system_p env = Inl e \<or> procs_p env = Inl e \<or> battery_p env = Inl e \<or> scheme_p env = Inl e \<Longrightarrow>
   fst (tick_try fm lc cfg vs env) = [] \<and> snd (tick_try fm lc cfg vs env) \<noteq> None"
  by (auto simp: tick_try_def split: sum.splits)

lemma tick_try_fault:
  assumes "system_p env = Inr system" "procs_p env = Inr procsRaw" "battery_p env = Inr battery"
    "scheme_p env = Inr scheme" "stdout_fault env = Some (k, e)"
    "k < 13 + length (sortAndFilterProcesses lc vs procsRaw)"
  shows "tick_try fm lc cfg vs env
         = (take k (render fm (clock env) (columns_now env) cfg vs system
                      (sortAndFilterProcesses lc vs procsRaw) battery scheme), Some e)"
  using assms by (simp add: tick_try_def Let_def length_render)

lemma tick_try_ok:
  assumes "system_p env = Inr system" "procs_p env = Inr procsRaw" "battery_p env = Inr battery"
    "scheme_p env = Inr scheme" "stdout_fault env = None"
  shows "tick_try fm lc cfg vs env
         = (render fm (clock env) (columns_now env) cfg vs system
              (sortAndFilterProcesses lc vs procsRaw) battery scheme, None)"
  using assms by (simp add: tick_try_def Let_def)

lemma timers_run_ticks:
  "map timer (run_ticks fm lc cfg ticks) = map (\<lambda>t. Some (intervalMs (fst t))) ticks"
  by (induction ticks) (auto simp: Let_def timer_tick)

lemma trim_empty: "trim [] = []"
  by (simp add: trim_def)

lemma trim_null: "trim ''null'' = ''null''"
  by (simp add: trim_def is_space_def)

text \<open>
  Claim C8. Whatever happens in a tick, \<^verbatim>\<open>setTimeout(tick, intervalMs)\<close> is reached:
  an exception of the \<^verbatim>\<open>try\<close> block (a rejected promise, or a write of
  \<^verbatim>\<open>render\<close> that throws) is printed by \<^verbatim>\<open>console.error\<close> and the timer is set
  all the same, so every tick of a run takes place. When the process query fails, prints
  nothing, prints \<^verbatim>\<open>null\<close> or returns an empty array, the raw sample is the empty
  list and so are the rows of the tick.
\<close>

theorem tick_never_fatal:
  "timer (tick fm lc cfg vs env) = Some (intervalMs vs) \<and>
   (\<forall>e. snd (tick_try fm lc cfg vs env) = Some e \<longrightarrow>
        console_error (tick fm lc cfg vs env) = Some (''Error: '' @ e)) \<and>
   (\<forall>e. system_p env = Inl e \<or> procs_p env = Inl e \<or> battery_p env = Inl e \<or> scheme_p env = Inl e \<longrightarrow>
        console_error (tick fm lc cfg vs env) \<noteq> None \<and> written (tick fm lc cfg vs env) = []) \<and>
   (\<forall>system procsRaw battery scheme k e.
        system_p env = Inr system \<and> procs_p env = Inr procsRaw \<and> battery_p env = Inr battery \<and>
        scheme_p env = Inr scheme \<and> stdout_fault env = Some (k, e) \<and>
        k < 13 + length (sortAndFilterProcesses lc vs procsRaw) \<longrightarrow>
        console_error (tick fm lc cfg vs env) = Some (''Error: '' @ e) \<and>
        length (written (tick fm lc cfg vs env)) = k) \<and>
   (\<forall>system procsRaw battery scheme.
        system_p env = Inr system \<and> procs_p env = Inr procsRaw \<and> battery_p env = Inr battery \<and>
        scheme_p env = Inr scheme \<and> stdout_fault env = None \<longrightarrow>
        console_error (tick fm lc cfg vs env) = None \<and>
        written (tick fm lc cfg vs env)
          = render fm (clock env) (columns_now env) cfg vs system
              (sortAndFilterProcesses lc vs procsRaw) battery scheme) \<and>
   map timer (run_ticks fm lc cfg ticks) = map (\<lambda>t. Some (intervalMs (fst t))) ticks \<and>
   sampleProcessesRaw (powershellJson parse ExecError) = [] \<and>
   sampleProcessesRaw (powershellJson parse (Stdout [])) = [] \<and>
   sampleProcessesRaw (powershellJson parse (Stdout ''null'')) = [] \<and>
   sampleProcessesRaw (Some (Arr [])) = [] \<and>
   fst (sampleProcesses cfg st now (sampleProcessesRaw None)) = []"
proof (intro conjI allI impI)
  show "timer (tick fm lc cfg vs env) = Some (intervalMs vs)" by (rule timer_tick)
  show "console_error (tick fm lc cfg vs env) = Some (''Error: '' @ e)"
    if "snd (tick_try fm lc cfg vs env) = Some e" for e
    using that by (simp add: console_error_tick)
  show "console_error (tick fm lc cfg vs env) \<noteq> None"
    if "system_p env = Inl e \<or> procs_p env = Inl e \<or> battery_p env = Inl e \<or> scheme_p env = Inl e" for e
    using tick_try_rejected[OF that, of fm lc cfg vs]
    by (auto simp: console_error_tick split: option.splits)
  show "written (tick fm lc cfg vs env) = []"
    if "system_p env = Inl e \<or> procs_p env = Inl e \<or> battery_p env = Inl e \<or> scheme_p env = Inl e" for e
    using tick_try_rejected[OF that, of fm lc cfg vs] by (simp add: written_tick)
  show "map timer (run_ticks fm lc cfg ticks) = map (\<lambda>t. Some (intervalMs (fst t))) ticks"
    by (rule timers_run_ticks)
  show "sampleProcessesRaw (powershellJson parse ExecError) = []"
    by (simp add: sampleProcessesRaw_def powershellJson_def)
  show "sampleProcessesRaw (powershellJson parse (Stdout [])) = []"
    by (simp add: sampleProcessesRaw_def powershellJson_def trim_empty)
  show "sampleProcessesRaw (powershellJson parse (Stdout ''null'')) = []"
    by (simp add: sampleProcessesRaw_def powershellJson_def trim_null)
  show "sampleProcessesRaw (Some (Arr [])) = []" by (simp add: sampleProcessesRaw_def)
  show "fst (sampleProcesses cfg st now (sampleProcessesRaw None)) = []"
    by (simp add: sampleProcessesRaw_def sampleProcesses_def Let_def)
next
  fix system procsRaw battery scheme k e
  assume h: "system_p env = Inr system \<and> procs_p env = Inr procsRaw \<and> battery_p env = Inr battery \<and>
        scheme_p env = Inr scheme \<and> stdout_fault env = Some (k, e) \<and>
        k < 13 + length (sortAndFilterProcesses lc vs procsRaw)"
  then have t: "tick_try fm lc cfg vs env
         = (take k (render fm (clock env) (columns_now env) cfg vs system
                      (sortAndFilterProcesses lc vs procsRaw) battery scheme), Some e)"
    by (intro tick_try_fault) simp_all
  show "console_error (tick fm lc cfg vs env) = Some (''Error: '' @ e)"
    by (simp add: console_error_tick t)
  show "length (written (tick fm lc cfg vs env)) = k"
    using h by (simp add: written_tick t length_render)
next
  fix system procsRaw battery scheme
  assume h: "system_p env = Inr system \<and> procs_p env = Inr procsRaw \<and> battery_p env = Inr battery \<and>
        scheme_p env = Inr scheme \<and> stdout_fault env = None"
  then have t: "tick_try fm lc cfg vs env
         = (render fm (clock env) (columns_now env) cfg vs system
              (sortAndFilterProcesses lc vs procsRaw) battery scheme, None)"
    by (intro tick_try_ok) simp_all
  show "console_error (tick fm lc cfg vs env) = None" by (simp add: console_error_tick t)
  show "written (tick fm lc cfg vs env)
          = render fm (clock env) (columns_now env) cfg vs system
              (sortAndFilterProcesses lc vs procsRaw) battery scheme"
    by (simp add: written_tick t)
qed

theorem tick_never_fatal_witness:
  "tick demo_formatters code_unit_compare (demo_config 4) (demo_view SortCpu True 20)
     (demo_env (Inl ''Cannot read properties of null'') None)
   = \<lparr>console_error = Some ''Error: Cannot read properties of null'', written = [],
      timer = Some 1000\<rparr> \<and>
   map timer (run_ticks demo_formatters code_unit_compare (demo_config 4)
     [(demo_view SortCpu True 20, demo_env (Inl ''Cannot read properties of null'') None),
      (demo_view SortCpu True 20, demo_env (Inr []) (Some (3, ''write EPIPE''))),
      (demo_view SortCpu True 20, demo_env (Inr []) None)])
   = [Some 1000, Some 1000, Some 1000] \<and>
   console_error (tick demo_formatters code_unit_compare (demo_config 4) (demo_view SortCpu True 20)
     (demo_env (Inr []) (Some (3, ''write EPIPE'')))) = Some ''Error: write EPIPE''"
  using tick_never_fatal [of demo_formatters code_unit_compare "demo_config 4"
      "demo_view SortCpu True 20" "demo_env (Inl ''Cannot read properties of null'') None"
      "[(demo_view SortCpu True 20, demo_env (Inl ''Cannot read properties of null'') None),
      (demo_view SortCpu True 20, demo_env (Inr []) (Some (3, ''write EPIPE''))),
      (demo_view SortCpu True 20, demo_env (Inr []) None)]"]
  by (simp add: tick_def tick_try_def demo_env_def demo_view_def length_render Let_def)

end
